theory Spec2Isabelle
  imports Main "HOL-Library.Word"
begin

unbundle bit_operations_syntax

section \<open>Errors\<close>

text \<open>
  The exceptions the two programs can raise. \<open>ValueError\<close> carries its message,
  since the assembler's messages name the token that was rejected.
\<close>

datatype error = ValueError string | IndexError | TypeError | KeyError

fun bind_err :: "error + 'a \<Rightarrow> ('a \<Rightarrow> error + 'b) \<Rightarrow> error + 'b" where
  "bind_err (Inl e) f = Inl e"
| "bind_err (Inr x) f = f x"

text \<open>
  Python list indexing: a negative index counts from the end, anything outside
  \<open>-n \<dots> n-1\<close> raises IndexError (here: \<open>None\<close>).
\<close>

definition py_index :: "'a list \<Rightarrow> int \<Rightarrow> nat option" where
  "py_index xs i =
     (if 0 \<le> i \<and> i < int (length xs) then Some (nat i)
      else if i < 0 \<and> - int (length xs) \<le> i then Some (nat (int (length xs) + i))
      else None)"

section \<open>The reference simulator (random_tests/integration_tests/tests_runner.py)\<close>

text \<open>
  \<open>class ReferenceCPU\<close>: 32 registers holding Python integers and a dictionary from
  aligned addresses to words.
\<close>

record cpu =
  regs :: "int list"
  mem :: "int \<rightharpoonup> int"

definition ReferenceCPU :: cpu where
  "ReferenceCPU = \<lparr>regs = replicate 32 0, mem = Map.empty\<rparr>"

definition to_unsigned_32 :: "int \<Rightarrow> int" where
  "to_unsigned_32 val = val AND 0xFFFFFFFF"

definition to_signed_32 :: "int \<Rightarrow> int" where
  "to_signed_32 val0 =
     (let val = val0 AND 0xFFFFFFFF
      in if val AND 0x80000000 \<noteq> 0 then val - 0x100000000 else val)"

definition sign_extend_12 :: "int \<Rightarrow> int" where
  "sign_extend_12 imm0 =
     (let imm12 = imm0 AND 0xFFF
      in if imm12 AND 0x800 \<noteq> 0 then imm12 - 0x1000 else imm12)"

definition set_reg :: "cpu \<Rightarrow> int \<Rightarrow> int \<Rightarrow> error + cpu" where
  "set_reg s idx val =
     (case py_index (regs s) idx of
        None \<Rightarrow> Inl IndexError
      | Some j \<Rightarrow> Inr (s\<lparr>regs := (regs s)[j := to_unsigned_32 val]\<rparr>))"

definition get_reg :: "cpu \<Rightarrow> int \<Rightarrow> error + int" where
  "get_reg s idx =
     (case py_index (regs s) idx of
        None \<Rightarrow> Inl IndexError
      | Some j \<Rightarrow> Inr (regs s ! j))"

definition store_word :: "cpu \<Rightarrow> int \<Rightarrow> int \<Rightarrow> cpu" where
  "store_word s addr val =
     (let aligned_addr = (addr div 4) * 4
      in s\<lparr>mem := (mem s)(aligned_addr \<mapsto> to_unsigned_32 val)\<rparr>)"

definition load_word :: "cpu \<Rightarrow> int \<Rightarrow> int" where
  "load_word s addr =
     (let aligned_addr = (addr div 4) * 4
      in case mem s aligned_addr of None \<Rightarrow> 0 | Some v \<Rightarrow> v)"

text \<open>
  \<open>execute(op, rd, rs1, rs2=None, imm=None)\<close>. The operands are fetched first (an
  index outside the register file raises there), the immediate is taken as passed
  for every operation but \<open>lui\<close>, the \<open>if\<close>/\<open>elif\<close> chain computes \<open>res\<close>
  (initially 0), and \<open>set_reg\<close> commits it; \<open>sw\<close> returns before the commit.
  \<open>lui\<close> without an immediate applies \<open>&\<close> to \<open>None\<close>: TypeError.
\<close>

definition execute :: "string \<Rightarrow> int \<Rightarrow> int \<Rightarrow> int option \<Rightarrow> int option \<Rightarrow> cpu \<Rightarrow> error + cpu" where
  "execute op rd rs1 rs2 imm s =
     bind_err (get_reg s rs1) (\<lambda>u_rs1.
     bind_err (case rs2 of None \<Rightarrow> Inr 0 | Some r \<Rightarrow> get_reg s r) (\<lambda>u_rs2.
       let s_rs1 = to_signed_32 u_rs1;
           s_rs2 = to_signed_32 u_rs2;
           s_imm = (case imm of
                      None \<Rightarrow> 0
                    | Some i \<Rightarrow> if op \<noteq> ''lui'' then i else to_unsigned_32 i)
       in if op = ''add'' then set_reg s rd (u_rs1 + u_rs2)
          else if op = ''sub'' then set_reg s rd (u_rs1 - u_rs2)
          else if op = ''and'' then set_reg s rd (u_rs1 AND u_rs2)
          else if op = ''or'' then set_reg s rd (u_rs1 OR u_rs2)
          else if op = ''slt'' then set_reg s rd (if s_rs1 < s_rs2 then 1 else 0)
          else if op = ''addi'' then set_reg s rd (u_rs1 + s_imm)
          else if op = ''lui'' then
            (case imm of
               None \<Rightarrow> Inl TypeError
             | Some i \<Rightarrow> set_reg s rd (push_bit 12 (i AND 0xFFFFF)))
          else if op = ''sw'' then
            Inr (store_word s ((u_rs1 + s_imm) AND 0xFFFFFFFF) u_rs2)
          else if op = ''lw'' then
            set_reg s rd (load_word s ((u_rs1 + s_imm) AND 0xFFFFFFFF))
          else set_reg s rd 0))"

text \<open>The value a later \<open>get_reg(idx)\<close> returns, after a call that may have raised.\<close>

definition reg_after :: "error + cpu \<Rightarrow> int \<Rightarrow> error + int" where
  "reg_after r idx = bind_err r (\<lambda>s. get_reg s idx)"

text \<open>A fresh simulator in which one register has been given a value.\<close>

definition cpu_with :: "nat \<Rightarrow> int \<Rightarrow> cpu" where
  "cpu_with r v = ReferenceCPU\<lparr>regs := (regs ReferenceCPU)[r := v]\<rparr>"

section \<open>Python string operations used by the assembler\<close>

text \<open>
  A string is a list of characters, each a code point below 256. \<open>isspace\<close> is
  \<open>str.isspace\<close> on these code points, which is also what \<open>str.strip\<close> removes and
  what \<open>\s\<close> matches.
\<close>

definition isspace :: "char \<Rightarrow> bool" where
  "isspace c = (c \<in> set [CHR 0x09, CHR 0x0A, CHR 0x0B, CHR 0x0C, CHR 0x0D,
                          CHR 0x1C, CHR 0x1D, CHR 0x1E, CHR 0x1F, CHR 0x20,
                          CHR 0x85, CHR 0xA0])"

definition strip :: "string \<Rightarrow> string" where
  "strip s = dropWhile isspace (rev (dropWhile isspace (rev s)))"

text \<open>
  \<open>s.split(c)\<close> for a one-character separator: the result is never the empty list,
  the empty string gives the list of one empty string.
\<close>

fun split_chr :: "char \<Rightarrow> string \<Rightarrow> string list" where
  "split_chr c [] = [[]]"
| "split_chr c (x # xs) =
     (if x = c then [] # split_chr c xs
      else (case split_chr c xs of [] \<Rightarrow> [[x]] | t # ts \<Rightarrow> (x # t) # ts))"

text \<open>\<open>re.split(r'\s+', s)\<close>: the pieces between maximal runs of whitespace.\<close>

fun re_split_ws :: "string \<Rightarrow> string list" where
  "re_split_ws [] = [[]]"
| "re_split_ws (x # xs) =
     (if isspace x then
        (case xs of
           [] \<Rightarrow> [] # re_split_ws xs
         | y # _ \<Rightarrow> if isspace y then re_split_ws xs else [] # re_split_ws xs)
      else (case re_split_ws xs of [] \<Rightarrow> [[x]] | t # ts \<Rightarrow> (x # t) # ts))"

text \<open>\<open>s.replace(",", "")\<close>.\<close>

definition remove_commas :: "string \<Rightarrow> string" where
  "remove_commas s = filter (\<lambda>c. c \<noteq> CHR '','') s"

subsection \<open>\<open>int(s, 0)\<close>\<close>

text \<open>
  The parser of integer literals with base 0, after CPython's \<open>PyLong_FromString\<close>:
  whitespace, an optional sign, an optional prefix \<open>0x\<close>, \<open>0o\<close> or \<open>0b\<close> (either
  case) that may be followed by one underscore, then digits of the base with single
  underscores between them, then whitespace up to the end. Without a prefix the base is
  10, and a literal with a leading \<open>0\<close> must be zero. \<open>None\<close> stands for ValueError.
  The whitespace skipped here is the C one together with the two non-ASCII spaces below
  256. A decimal literal of more than 4300 digits is refused, which is the default
  limit of the interpreter on conversions from decimal strings.
\<close>

definition int_space :: "char \<Rightarrow> bool" where
  "int_space c = (c \<in> set [CHR 0x09, CHR 0x0A, CHR 0x0B, CHR 0x0C, CHR 0x0D, CHR 0x20,
                            CHR 0x85, CHR 0xA0])"

definition digit_value :: "char \<Rightarrow> nat" where
  "digit_value c =
     (let n = (of_char c :: nat)
      in if 48 \<le> n \<and> n \<le> 57 then n - 48
         else if 97 \<le> n \<and> n \<le> 122 then n - 87
         else if 65 \<le> n \<and> n \<le> 90 then n - 55
         else 37)"

text \<open>
  The digit scan: \<open>prev\<close> is the character read last, \<open>acc\<close> the value and \<open>n\<close>
  the number of digits so far. The result is the value, the number of digits and the
  unread rest; a doubled or trailing underscore fails.
\<close>

fun scan_digits :: "nat \<Rightarrow> char \<Rightarrow> nat \<Rightarrow> nat \<Rightarrow> string \<Rightarrow> (nat \<times> nat \<times> string) option" where
  "scan_digits base prev acc n [] =
     (if prev = CHR ''_'' then None else Some (acc, n, []))"
| "scan_digits base prev acc n (c # cs) =
     (if c = CHR ''_'' then
        (if prev = CHR ''_'' then None else scan_digits base c acc n cs)
      else if digit_value c < base then
        scan_digits base c (acc * base + digit_value c) (Suc n) cs
      else if prev = CHR ''_'' then None
      else Some (acc, n, c # cs))"

text \<open>The sign: whether the literal is negative, and the text after the sign.\<close>

fun int_sign :: "string \<Rightarrow> bool \<times> string" where
  "int_sign [] = (False, [])"
| "int_sign (c # cs) =
     (if c = CHR ''+'' then (False, cs)
      else if c = CHR ''-'' then (True, cs)
      else (False, c # cs))"

text \<open>
  The base: the base, whether a non-zero value is an error (a leading \<open>0\<close> without
  a prefix), and the text after the prefix and its one optional underscore.
\<close>

fun int_base :: "string \<Rightarrow> nat \<times> bool \<times> string" where
  "int_base (c0 # c1 # cs) =
     (if c0 \<noteq> CHR ''0'' then (10, False, c0 # c1 # cs)
      else if c1 = CHR ''x'' \<or> c1 = CHR ''X'' then
        (16, False, case cs of [] \<Rightarrow> [] | u # us \<Rightarrow> if u = CHR ''_'' then us else u # us)
      else if c1 = CHR ''o'' \<or> c1 = CHR ''O'' then
        (8, False, case cs of [] \<Rightarrow> [] | u # us \<Rightarrow> if u = CHR ''_'' then us else u # us)
      else if c1 = CHR ''b'' \<or> c1 = CHR ''B'' then
        (2, False, case cs of [] \<Rightarrow> [] | u # us \<Rightarrow> if u = CHR ''_'' then us else u # us)
      else (10, True, c0 # c1 # cs))"
| "int_base [c0] = (if c0 \<noteq> CHR ''0'' then (10, False, [c0]) else (10, True, [c0]))"
| "int_base [] = (10, False, [])"

definition py_int0 :: "string \<Rightarrow> int option" where
  "py_int0 s =
     (case int_sign (dropWhile int_space s) of (neg, s2) \<Rightarrow>
      case int_base s2 of (base, error_if_nonzero, s3) \<Rightarrow>
        if s3 \<noteq> [] \<and> hd s3 = CHR ''_'' then None
        else (case scan_digits base (CHR 0x00) 0 0 s3 of
                None \<Rightarrow> None
              | Some (v, n, rest) \<Rightarrow>
                  if base = 10 \<and> 4300 < n then None
                  else if error_if_nonzero \<and> v \<noteq> 0 then None
                  else if n = 0 then None
                  else if dropWhile int_space rest \<noteq> [] then None
                  else Some (if neg then - int v else int v)))"

section \<open>The assembler (base_tests/integration_tests/assembler.py)\<close>

subsection \<open>\<open>to_bin\<close>\<close>

text \<open>The binary digits of a natural number, most significant first, \<open>0\<close> for 0.\<close>

fun bin_digits :: "nat \<Rightarrow> string" where
  "bin_digits n =
     (if n < 2 then [if n = 0 then CHR ''0'' else CHR ''1'']
      else bin_digits (n div 2) @ [if n mod 2 = 0 then CHR ''0'' else CHR ''1''])"

declare bin_digits.simps [simp del]

text \<open>
  The format specification \<open>0{width}b\<close>: the digits are padded with zeros on the left
  up to the width; a negative number is rendered as a minus sign followed by the
  digits of its magnitude, padded after the sign, the sign counting towards the width.
  Nothing is ever cut off.
\<close>

definition zero_pad :: "nat \<Rightarrow> string \<Rightarrow> string" where
  "zero_pad width ds = replicate (width - length ds) (CHR ''0'') @ ds"

definition format_0b :: "int \<Rightarrow> nat \<Rightarrow> string" where
  "format_0b val width =
     (if val < 0 then CHR ''-'' # zero_pad (width - 1) (bin_digits (nat (- val)))
      else zero_pad width (bin_digits (nat val)))"

definition to_bin :: "int \<Rightarrow> nat \<Rightarrow> string" where
  "to_bin val0 bits =
     (let val = (if val0 < 0 then push_bit bits 1 + val0 else val0)
      in format_0b val bits)"

subsection \<open>Registers and immediates\<close>

definition regs_table :: "(string \<times> int) list" where
  "regs_table =
    [
     (''x0'', 0), (''x1'', 1), (''x2'', 2), (''x3'', 3), (''x4'', 4), (''x5'', 5),
     (''x6'', 6), (''x7'', 7), (''x8'', 8), (''x9'', 9), (''x10'', 10), (''x11'', 11),
     (''x12'', 12), (''x13'', 13), (''x14'', 14), (''x15'', 15), (''x16'', 16), (''x17'', 17),
     (''x18'', 18), (''x19'', 19), (''x20'', 20), (''x21'', 21), (''x22'', 22), (''x23'', 23),
     (''x24'', 24), (''x25'', 25), (''x26'', 26), (''x27'', 27), (''x28'', 28), (''x29'', 29),
     (''x30'', 30), (''x31'', 31), (''zero'', 0), (''ra'', 1), (''sp'', 2), (''gp'', 3),
     (''tp'', 4), (''t0'', 5), (''t1'', 6), (''t2'', 7), (''s0'', 8), (''fp'', 8),
     (''s1'', 9), (''a0'', 10), (''a1'', 11), (''a2'', 12), (''a3'', 13), (''a4'', 14),
     (''a5'', 15), (''a6'', 16), (''a7'', 17), (''s2'', 18), (''s3'', 19), (''s4'', 20),
     (''s5'', 21), (''s6'', 22), (''s7'', 23), (''s8'', 24), (''s9'', 25), (''s10'', 26),
     (''s11'', 27), (''t3'', 28), (''t4'', 29), (''t5'', 30), (''t6'', 31)]"

definition parse_reg :: "string \<Rightarrow> error + int" where
  "parse_reg s0 =
     (let s = remove_commas (strip s0)
      in case map_of regs_table s of
           Some r \<Rightarrow> Inr r
         | None \<Rightarrow> Inl (ValueError (''Unknown register: '' @ s)))"

definition parse_imm :: "string \<Rightarrow> (string \<rightharpoonup> int) \<Rightarrow> int \<Rightarrow> error + int" where
  "parse_imm s0 labels pc =
     (let s = remove_commas (strip s0)
      in case labels s of
           Some l \<Rightarrow> Inr (l - pc)
         | None \<Rightarrow>
             (case py_int0 s of
                Some v \<Rightarrow> Inr v
              | None \<Rightarrow> Inl (ValueError (''Invalid immediate: '' @ s))))"

subsection \<open>The instruction table\<close>

datatype otype = R | I | I_load | S | B | U | J

record op_desc =
  otype :: otype
  opcode :: string
  funct3 :: "string option"
  funct7 :: "string option"

definition opcodes :: "string \<rightharpoonup> op_desc" where
  "opcodes = map_of
    [(''add'',  \<lparr>otype = R, opcode = ''0110011'', funct3 = Some ''000'', funct7 = Some ''0000000''\<rparr>),
     (''sub'',  \<lparr>otype = R, opcode = ''0110011'', funct3 = Some ''000'', funct7 = Some ''0100000''\<rparr>),
     (''and'',  \<lparr>otype = R, opcode = ''0110011'', funct3 = Some ''111'', funct7 = Some ''0000000''\<rparr>),
     (''or'',   \<lparr>otype = R, opcode = ''0110011'', funct3 = Some ''110'', funct7 = Some ''0000000''\<rparr>),
     (''slt'',  \<lparr>otype = R, opcode = ''0110011'', funct3 = Some ''010'', funct7 = Some ''0000000''\<rparr>),
     (''addi'', \<lparr>otype = I, opcode = ''0010011'', funct3 = Some ''000'', funct7 = None\<rparr>),
     (''lw'',   \<lparr>otype = I_load, opcode = ''0000011'', funct3 = Some ''010'', funct7 = None\<rparr>),
     (''jalr'', \<lparr>otype = I, opcode = ''1100111'', funct3 = Some ''000'', funct7 = None\<rparr>),
     (''sw'',   \<lparr>otype = S, opcode = ''0100011'', funct3 = Some ''010'', funct7 = None\<rparr>),
     (''beq'',  \<lparr>otype = B, opcode = ''1100011'', funct3 = Some ''000'', funct7 = None\<rparr>),
     (''bne'',  \<lparr>otype = B, opcode = ''1100011'', funct3 = Some ''001'', funct7 = None\<rparr>),
     (''blt'',  \<lparr>otype = B, opcode = ''1100011'', funct3 = Some ''100'', funct7 = None\<rparr>),
     (''lui'',  \<lparr>otype = U, opcode = ''0110111'', funct3 = None, funct7 = None\<rparr>),
     (''jal'',  \<lparr>otype = J, opcode = ''1101111'', funct3 = None, funct7 = None\<rparr>)]"

text \<open>\<open>op["funct3"]\<close>: a descriptor without the key raises KeyError.\<close>

definition field :: "string option \<Rightarrow> error + string" where
  "field f = (case f of None \<Rightarrow> Inl KeyError | Some v \<Rightarrow> Inr v)"

text \<open>\<open>args[i]\<close> for a literal index \<open>i \<ge> 0\<close>.\<close>

definition arg_at :: "string list \<Rightarrow> nat \<Rightarrow> error + string" where
  "arg_at args i = (if i < length args then Inr (args ! i) else Inl IndexError)"

subsection \<open>\<open>assemble\<close>, pass 2: one instruction\<close>

text \<open>
  The operand \<open>imm(rs1)\<close> of \<open>lw\<close> and \<open>sw\<close>. The guard asks for a \<open>(\<close> somewhere
  and a \<open>)\<close> at the end; the text before the closing parenthesis is then split at
  every \<open>(\<close> and unpacked into two names, which raises ValueError unless there are
  exactly two pieces.
\<close>

definition mem_operand :: "string \<Rightarrow> (string \<rightharpoonup> int) \<Rightarrow> int \<Rightarrow> error + int \<times> int" where
  "mem_operand a labels pc =
     (if CHR ''('' \<in> set a \<and> a \<noteq> [] \<and> last a = CHR '')'' then
        (case split_chr (CHR ''('') (butlast a) of
           [val_part, reg_part] \<Rightarrow>
             bind_err (parse_imm val_part labels pc) (\<lambda>imm.
             bind_err (parse_reg reg_part) (\<lambda>rs1. Inr (imm, rs1)))
         | [] \<Rightarrow> Inl (ValueError ''not enough values to unpack (expected 2, got 0)'')
         | [_] \<Rightarrow> Inl (ValueError ''not enough values to unpack (expected 2, got 1)'')
         | _ \<Rightarrow> Inl (ValueError ''too many values to unpack (expected 2)''))
      else Inl (ValueError (''Invalid memory operand: '' @ a)))"

text \<open>The body of the second loop: the word of the instruction queued at \<open>pc\<close>.\<close>

definition encode_instr :: "(string \<rightharpoonup> int) \<Rightarrow> int \<times> string \<Rightarrow> error + string" where
  "encode_instr labels q =
     (case q of (pc, line) \<Rightarrow>
      let parts = re_split_ws line;
          instr = parts ! 0;
          args = map strip (split_chr (CHR '','') (concat (tl parts)))
      in case opcodes instr of
           None \<Rightarrow> Inl (ValueError (''Unknown instruction: '' @ instr))
         | Some op \<Rightarrow>
            (case otype op of
               R \<Rightarrow>
                 bind_err (bind_err (arg_at args 0) parse_reg) (\<lambda>rd.
                 bind_err (bind_err (arg_at args 1) parse_reg) (\<lambda>rs1.
                 bind_err (bind_err (arg_at args 2) parse_reg) (\<lambda>rs2.
                 bind_err (field (funct3 op)) (\<lambda>f3.
                 bind_err (field (funct7 op)) (\<lambda>f7.
                   Inr (f7 @ to_bin rs2 5 @ to_bin rs1 5 @ f3 @ to_bin rd 5 @ opcode op))))))
             | I \<Rightarrow>
                 bind_err (bind_err (arg_at args 0) parse_reg) (\<lambda>rd.
                 bind_err (bind_err (arg_at args 1) parse_reg) (\<lambda>rs1.
                 bind_err (bind_err (arg_at args 2) (\<lambda>a. parse_imm a labels pc)) (\<lambda>imm.
                 bind_err (field (funct3 op)) (\<lambda>f3.
                   Inr (to_bin imm 12 @ to_bin rs1 5 @ f3 @ to_bin rd 5 @ opcode op)))))
             | I_load \<Rightarrow>
                 bind_err (bind_err (arg_at args 0) parse_reg) (\<lambda>rd.
                 bind_err (bind_err (arg_at args 1) (\<lambda>a. mem_operand a labels pc)) (\<lambda>(imm, rs1).
                 bind_err (field (funct3 op)) (\<lambda>f3.
                   Inr (to_bin imm 12 @ to_bin rs1 5 @ f3 @ to_bin rd 5 @ opcode op))))
             | S \<Rightarrow>
                 bind_err (bind_err (arg_at args 0) parse_reg) (\<lambda>rs2.
                 bind_err (bind_err (arg_at args 1) (\<lambda>a. mem_operand a labels pc)) (\<lambda>(imm, rs1).
                 bind_err (field (funct3 op)) (\<lambda>f3.
                   let imm_bin = to_bin imm 12
                   in Inr (take 7 imm_bin @ to_bin rs2 5 @ to_bin rs1 5 @ f3
                           @ drop 7 imm_bin @ opcode op))))
             | B \<Rightarrow>
                 bind_err (bind_err (arg_at args 0) parse_reg) (\<lambda>rs1.
                 bind_err (bind_err (arg_at args 1) parse_reg) (\<lambda>rs2.
                 bind_err (bind_err (arg_at args 2) (\<lambda>a. parse_imm a labels pc)) (\<lambda>imm.
                 bind_err (field (funct3 op)) (\<lambda>f3.
                   let imm_bin = to_bin imm 13;
                       b12 = [imm_bin ! 0];
                       b11 = [imm_bin ! 1];
                       b10_5 = take 6 (drop 2 imm_bin);
                       b4_1 = take 4 (drop 8 imm_bin)
                   in Inr (b12 @ b10_5 @ to_bin rs2 5 @ to_bin rs1 5 @ f3 @ b4_1 @ b11
                           @ opcode op)))))
             | U \<Rightarrow>
                 bind_err (bind_err (arg_at args 0) parse_reg) (\<lambda>rd.
                 bind_err (bind_err (arg_at args 1) (\<lambda>a. parse_imm a labels pc)) (\<lambda>imm.
                   Inr (to_bin imm 20 @ to_bin rd 5 @ opcode op)))
             | J \<Rightarrow>
                 bind_err (bind_err (arg_at args 0) parse_reg) (\<lambda>rd.
                 bind_err (bind_err (arg_at args 1) (\<lambda>a. parse_imm a labels pc)) (\<lambda>imm.
                   let imm_bin = to_bin imm 21;
                       b20 = [imm_bin ! 0];
                       b19_12 = take 8 (drop 1 imm_bin);
                       b11 = [imm_bin ! 9];
                       b10_1 = take 10 (drop 10 imm_bin)
                   in Inr (b20 @ b10_1 @ b11 @ b19_12 @ to_bin rd 5 @ opcode op)))))"

fun pass2 :: "(string \<rightharpoonup> int) \<Rightarrow> (int \<times> string) list \<Rightarrow> error + string list" where
  "pass2 labels [] = Inr []"
| "pass2 labels (q # qs) =
     bind_err (encode_instr labels q) (\<lambda>bin_str.
     bind_err (pass2 labels qs) (\<lambda>binary_lines. Inr (bin_str # binary_lines)))"

subsection \<open>\<open>assemble\<close>, pass 1: labels\<close>

text \<open>
  One iteration of the first loop on the state \<open>(labels, pc, instructions)\<close>: the
  comment is cut off and the line stripped; an empty line is skipped; a line ending in
  a colon declares the label before the colon; a line with a colon declares the
  stripped text before the first colon and goes on with the stripped text between the
  first and the second colon; what remains, unless empty, is queued at \<open>pc\<close>.
\<close>

definition pass1_step ::
  "(string \<rightharpoonup> int) \<times> int \<times> (int \<times> string) list \<Rightarrow> string
     \<Rightarrow> (string \<rightharpoonup> int) \<times> int \<times> (int \<times> string) list" where
  "pass1_step st raw =
     (case st of (labels, pc, instructions) \<Rightarrow>
      let line = strip (split_chr (CHR ''#'') raw ! 0)
      in if line = [] then (labels, pc, instructions)
         else if last line = CHR '':'' then (labels(butlast line \<mapsto> pc), pc, instructions)
         else if CHR '':'' \<in> set line then
           (let parts = split_chr (CHR '':'') line;
                labels' = labels(strip (parts ! 0) \<mapsto> pc);
                line' = strip (parts ! 1)
            in if line' = [] then (labels', pc, instructions)
               else (labels', pc + 4, instructions @ [(pc, line')]))
         else (labels, pc + 4, instructions @ [(pc, line)]))"

definition pass1 :: "string list \<Rightarrow> (string \<rightharpoonup> int) \<times> int \<times> (int \<times> string) list" where
  "pass1 lines = foldl pass1_step (Map.empty, 0, []) lines"

definition assemble :: "string list \<Rightarrow> error + string list" where
  "assemble lines =
     (case pass1 lines of (labels, pc, instructions) \<Rightarrow> pass2 labels instructions)"

text \<open>
  The unsigned binary value of a string of bits, most significant first; the measure
  against which \<open>to_bin\<close> is judged.
\<close>

definition bit_of :: "char \<Rightarrow> nat" where
  "bit_of c = (if c = CHR ''1'' then 1 else 0)"

definition bin_value :: "string \<Rightarrow> nat" where
  "bin_value s = foldl (\<lambda>acc c. 2 * acc + bit_of c) 0 s"

subsection \<open>What one source line contributes to pass 1\<close>

text \<open>
  The two effects of an iteration of the first loop, read off its branches: the label
  the line declares, if any, and the instruction text it queues, if any.
\<close>

definition clean_line :: "string \<Rightarrow> string" where
  "clean_line raw = strip (split_chr (CHR ''#'') raw ! 0)"

definition declared_label :: "string \<Rightarrow> string option" where
  "declared_label raw =
     (let line = clean_line raw
      in if line = [] then None
         else if last line = CHR '':'' then Some (butlast line)
         else if CHR '':'' \<in> set line then Some (strip (split_chr (CHR '':'') line ! 0))
         else None)"

definition queued_text :: "string \<Rightarrow> string option" where
  "queued_text raw =
     (let line = clean_line raw
      in if line = [] then None
         else if last line = CHR '':'' then None
         else if CHR '':'' \<in> set line then
           (let line' = strip (split_chr (CHR '':'') line ! 1)
            in if line' = [] then None else Some line')
         else Some line)"

text \<open>
  The invariant of the first loop: \<open>pc\<close> is four times the number of queued
  instructions, and the instructions are queued at 0, 4, 8, \<dots>
\<close>

definition pcs_ok :: "int \<times> (int \<times> string) list \<Rightarrow> bool" where
  "pcs_ok x =
     (case x of (pc, ins) \<Rightarrow>
        pc = 4 * int (length ins) \<and> map fst ins = map (\<lambda>k. 4 * int k) [0..<length ins])"

subsection \<open>The tokens of a queued instruction\<close>

text \<open>
  The first two assignments of the second loop: \<open>instr = parts[0]\<close> and the
  stripped pieces of \<open>"".join(parts[1:]).split(",")\<close>.
\<close>

definition mnemonic :: "string \<Rightarrow> string" where
  "mnemonic line = re_split_ws line ! 0"

definition operands :: "string \<Rightarrow> string list" where
  "operands line = map strip (split_chr (CHR '','') (concat (tl (re_split_ws line))))"

section \<open>Masks as arithmetic\<close>

lemma and_mask32: "(v::int) AND 0xFFFFFFFF = v mod 2 ^ 32"
proof -
  have "v AND mask 32 = take_bit 32 v" by (simp add: take_bit_eq_mask)
  then show ?thesis by (simp add: take_bit_eq_mod mask_eq_exp_minus_1)
qed

lemma and_mask12: "(v::int) AND 0xFFF = v mod 2 ^ 12"
proof -
  have "v AND mask 12 = take_bit 12 v" by (simp add: take_bit_eq_mask)
  then show ?thesis by (simp add: take_bit_eq_mod mask_eq_exp_minus_1)
qed

lemma and_mask20: "(v::int) AND 0xFFFFF = v mod 2 ^ 20"
proof -
  have "v AND mask 20 = take_bit 20 v" by (simp add: take_bit_eq_mask)
  then show ?thesis by (simp add: take_bit_eq_mod mask_eq_exp_minus_1)
qed

lemma to_unsigned_32_mod: "to_unsigned_32 v = v mod 2 ^ 32"
  by (simp add: to_unsigned_32_def and_mask32)

lemma top_bit_test:
  fixes u :: int
  assumes "0 \<le> u" "u < 2 ^ Suc n"
  shows "(u AND 2 ^ n \<noteq> 0) = (2 ^ n \<le> u)"
proof -
  have "(u AND 2 ^ n \<noteq> 0) = bit u n"
    by (simp add: and_exp_eq_0_iff_not_bit)
  also have "\<dots> = odd (u div 2 ^ n)" by (simp add: bit_iff_odd)
  also have "\<dots> = (2 ^ n \<le> u)"
  proof (cases "2 ^ n \<le> u")
    case True
    with assms have "u div 2 ^ n = 1"
      by (intro int_div_pos_eq [where r = "u - 2 ^ n"]) auto
    with True show ?thesis by simp
  next
    case False
    with assms have "u div 2 ^ n = 0" by (simp add: div_pos_pos_trivial)
    with False show ?thesis by simp
  qed
  finally show ?thesis .
qed

lemma to_signed_32_alt:
  "to_signed_32 v = (if 2 ^ 31 \<le> v mod 2 ^ 32 then v mod 2 ^ 32 - 2 ^ 32 else v mod 2 ^ 32)"
proof -
  have "(v mod 2 ^ 32 AND 2 ^ 31 \<noteq> 0) = (2 ^ 31 \<le> v mod 2 ^ 32)"
    by (rule top_bit_test) simp_all
  then show ?thesis by (simp add: to_signed_32_def and_mask32 Let_def)
qed

lemma to_signed_32_sint: "to_signed_32 v = sint (word_of_int v :: 32 word)"
proof -
  let ?u = "v mod 2 ^ 32"
  have u: "0 \<le> ?u" "?u < 2 ^ 32" by simp_all
  have "(v + 2 ^ 31) mod 2 ^ 32 = (?u + 2 ^ 31) mod 2 ^ 32"
    by (simp add: mod_add_left_eq)
  also have "\<dots> = (if 2 ^ 31 \<le> ?u then ?u - 2 ^ 31 else ?u + 2 ^ 31)"
  proof (cases "2 ^ 31 \<le> ?u")
    case True
    with u have "(?u + 2 ^ 31) mod 2 ^ 32 = ?u + 2 ^ 31 - 2 ^ 32"
      by (intro int_mod_pos_eq [where q = 1]) auto
    with True show ?thesis by simp
  next
    case False
    with u have "(?u + 2 ^ 31) mod 2 ^ 32 = ?u + 2 ^ 31"
      by (intro mod_pos_pos_trivial) auto
    with False show ?thesis by simp
  qed
  finally show ?thesis
    by (simp add: to_signed_32_alt int_word_sint)
qed

lemma sign_extend_12_alt:
  "sign_extend_12 v = (if 2 ^ 11 \<le> v mod 2 ^ 12 then v mod 2 ^ 12 - 2 ^ 12 else v mod 2 ^ 12)"
proof -
  have "(v mod 2 ^ 12 AND 2 ^ 11 \<noteq> 0) = (2 ^ 11 \<le> v mod 2 ^ 12)"
    by (rule top_bit_test) simp_all
  then show ?thesis by (simp add: sign_extend_12_def and_mask12 Let_def)
qed

lemma sign_extend_12_id:
  assumes "- 2048 \<le> i" "i \<le> 2047" shows "sign_extend_12 i = i"
proof (cases "0 \<le> i")
  case True
  with assms have "i mod 2 ^ 12 = i" by (intro mod_pos_pos_trivial) auto
  with assms show ?thesis by (simp add: sign_extend_12_alt)
next
  case False
  with assms have "i mod 2 ^ 12 = i + 2 ^ 12"
    by (intro int_mod_pos_eq [where q = "-1"]) auto
  with False assms show ?thesis by (simp add: sign_extend_12_alt)
qed

section \<open>The reference simulator: register and memory operations\<close>

lemma py_index_nonneg: "0 \<le> i \<Longrightarrow> i < int (length xs) \<Longrightarrow> py_index xs i = Some (nat i)"
  by (simp add: py_index_def)

lemma set_reg_ok:
  "length (regs s) = 32 \<Longrightarrow> 0 \<le> rd \<Longrightarrow> rd < 32 \<Longrightarrow>
   set_reg s rd v = Inr (s\<lparr>regs := (regs s)[nat rd := v mod 2 ^ 32]\<rparr>)"
  by (simp add: set_reg_def py_index_nonneg to_unsigned_32_mod)

lemma get_reg_ok:
  "length (regs s) = 32 \<Longrightarrow> 0 \<le> r \<Longrightarrow> r < 32 \<Longrightarrow> get_reg s r = Inr (regs s ! nat r)"
  by (simp add: get_reg_def py_index_nonneg)

lemma reg_after_set_reg:
  "length (regs s) = 32 \<Longrightarrow> 0 \<le> rd \<Longrightarrow> rd < 32 \<Longrightarrow>
   reg_after (set_reg s rd v) rd = Inr (v mod 2 ^ 32)"
  by (simp add: reg_after_def set_reg_ok get_reg_ok)

lemma execute_alu:
  assumes "get_reg s rs1 = Inr a" "get_reg s rs2 = Inr b"
  shows "execute ''add'' rd rs1 (Some rs2) imm s = set_reg s rd (a + b)"
    and "execute ''sub'' rd rs1 (Some rs2) imm s = set_reg s rd (a - b)"
    and "execute ''and'' rd rs1 (Some rs2) imm s = set_reg s rd (a AND b)"
    and "execute ''or'' rd rs1 (Some rs2) imm s = set_reg s rd (a OR b)"
    and "execute ''slt'' rd rs1 (Some rs2) imm s =
           set_reg s rd (if to_signed_32 a < to_signed_32 b then 1 else 0)"
  using assms by (simp_all add: execute_def Let_def)

lemma execute_imm:
  assumes "get_reg s rs1 = Inr a"
  shows "execute ''addi'' rd rs1 None (Some i) s = set_reg s rd (a + i)"
    and "execute ''lui'' rd rs1 None (Some i) s = set_reg s rd (push_bit 12 (i AND 0xFFFFF))"
    and "execute ''lw'' rd rs1 None (Some i) s = set_reg s rd (load_word s ((a + i) mod 2 ^ 32))"
  using assms by (simp_all add: execute_def Let_def and_mask32)

lemma execute_sw:
  assumes "get_reg s rs1 = Inr a" "get_reg s rs2 = Inr v"
  shows "execute ''sw'' rd rs1 (Some rs2) (Some i) s = Inr (store_word s ((a + i) mod 2 ^ 32) v)"
  using assms by (simp add: execute_def Let_def and_mask32)

text \<open>
  Claim C2. With \<open>rs1\<close> holding \<open>a\<close> and \<open>rs2\<close> holding \<open>b\<close>, both unsigned
  32-bit values, \<open>add\<close> stores \<open>(a + b) mod 2^32\<close> into \<open>rd\<close>, \<open>sub\<close> stores
  \<open>(a - b) mod 2^32\<close>, and \<open>slt\<close> stores 1 exactly when \<open>a\<close> read as a two's
  complement 32-bit number is less than \<open>b\<close> read the same way, 0 otherwise; with
  \<open>0x80000000\<close> and \<open>0\<close> it stores 1. Nothing else of the state changes.
\<close>

theorem execute_add_sub_slt:
  assumes "length (regs s) = 32" and "0 \<le> rd" and "rd < 32"
    and "get_reg s rs1 = Inr a" and "get_reg s rs2 = Inr b"
    and "0 \<le> a" and "a < 2 ^ 32" and "0 \<le> b" and "b < 2 ^ 32"
  shows "execute ''add'' rd rs1 (Some rs2) imm s
           = Inr (s\<lparr>regs := (regs s)[nat rd := (a + b) mod 2 ^ 32]\<rparr>)
       \<and> execute ''sub'' rd rs1 (Some rs2) imm s
           = Inr (s\<lparr>regs := (regs s)[nat rd := (a - b) mod 2 ^ 32]\<rparr>)
       \<and> execute ''slt'' rd rs1 (Some rs2) imm s
           = Inr (s\<lparr>regs := (regs s)
                [nat rd := (if sint (word_of_int a :: 32 word) < sint (word_of_int b :: 32 word)
                            then 1 else 0)]\<rparr>)
       \<and> (a = 0x80000000 \<and> b = 0 \<longrightarrow>
            execute ''slt'' rd rs1 (Some rs2) imm s = Inr (s\<lparr>regs := (regs s)[nat rd := 1]\<rparr>))"
proof -
  have slt: "execute ''slt'' rd rs1 (Some rs2) imm s
           = Inr (s\<lparr>regs := (regs s)
                [nat rd := (if sint (word_of_int a :: 32 word) < sint (word_of_int b :: 32 word)
                            then 1 else 0)]\<rparr>)"
    using assms(1-3) by (simp add: execute_alu [OF assms(4,5)] set_reg_ok to_signed_32_sint)
  have "execute ''add'' rd rs1 (Some rs2) imm s
           = Inr (s\<lparr>regs := (regs s)[nat rd := (a + b) mod 2 ^ 32]\<rparr>)"
    using assms(1-3) by (simp add: execute_alu [OF assms(4,5)] set_reg_ok)
  moreover have "execute ''sub'' rd rs1 (Some rs2) imm s
           = Inr (s\<lparr>regs := (regs s)[nat rd := (a - b) mod 2 ^ 32]\<rparr>)"
    using assms(1-3) by (simp add: execute_alu [OF assms(4,5)] set_reg_ok)
  moreover note slt
  moreover have "a = 0x80000000 \<and> b = 0 \<longrightarrow>
            execute ''slt'' rd rs1 (Some rs2) imm s = Inr (s\<lparr>regs := (regs s)[nat rd := 1]\<rparr>)"
    by (simp add: slt)
  ultimately show ?thesis by blast
qed

lemma regs_ReferenceCPU: "regs ReferenceCPU = replicate 32 0"
  by (simp add: ReferenceCPU_def)

lemma length_cpu_with: "length (regs (cpu_with r v)) = 32"
  by (simp add: cpu_with_def regs_ReferenceCPU)

lemma get_reg_cpu_with:
  "0 \<le> i \<Longrightarrow> i < 32 \<Longrightarrow> get_reg (cpu_with r v) i = Inr (if nat i = r then v else 0)"
  by (simp add: get_reg_ok length_cpu_with) (simp add: cpu_with_def regs_ReferenceCPU)

theorem execute_add_sub_slt_witness:
  "length (regs (cpu_with 1 0x80000000)) = 32 \<and> (0::int) \<le> 3 \<and> (3::int) < 32
   \<and> get_reg (cpu_with 1 0x80000000) 1 = Inr 0x80000000
   \<and> get_reg (cpu_with 1 0x80000000) 0 = Inr 0
   \<and> (0::int) \<le> 0x80000000 \<and> (0x80000000::int) < 2 ^ 32 \<and> (0::int) \<le> 0 \<and> (0::int) < 2 ^ 32
   \<and> execute ''add'' 3 1 (Some 0) None (cpu_with 1 0x80000000)
       = Inr ((cpu_with 1 0x80000000)\<lparr>regs := (regs (cpu_with 1 0x80000000))[3 := 0x80000000]\<rparr>)
   \<and> execute ''sub'' 3 1 (Some 0) None (cpu_with 1 0x80000000)
       = Inr ((cpu_with 1 0x80000000)\<lparr>regs := (regs (cpu_with 1 0x80000000))[3 := 0x80000000]\<rparr>)
   \<and> execute ''slt'' 3 1 (Some 0) None (cpu_with 1 0x80000000)
       = Inr ((cpu_with 1 0x80000000)\<lparr>regs := (regs (cpu_with 1 0x80000000))[3 := 1]\<rparr>)"
proof -
  have g: "get_reg (cpu_with 1 0x80000000) 1 = Inr 0x80000000"
    "get_reg (cpu_with 1 0x80000000) 0 = Inr 0"
    by (simp_all add: get_reg_cpu_with)
  show ?thesis
    using execute_add_sub_slt [OF length_cpu_with _ _ g, of 3 None] g
    by (simp add: length_cpu_with)
qed

lemma store_word_simps:
  "regs (store_word s a v) = regs s"
  "mem (store_word s a v) = (mem s)((a div 4) * 4 \<mapsto> v mod 2 ^ 32)"
  by (simp_all add: store_word_def to_unsigned_32_mod)

lemma load_store_same:
  "a div 4 = a' div 4 \<Longrightarrow> load_word (store_word s a v) a' = v mod 2 ^ 32"
  by (simp add: load_word_def store_word_simps)

lemma get_reg_store_word: "get_reg (store_word s a v) r = get_reg s r"
  by (simp add: get_reg_def store_word_simps split: option.split)

text \<open>
  Claim C3. With \<open>rs1\<close> holding \<open>base\<close>, the address of \<open>sw\<close> and \<open>lw\<close> is
  \<open>a = (base + imm) mod 2^32\<close> and the cell accessed is \<open>(a div 4) * 4\<close>: \<open>sw\<close>
  stores the word of \<open>rs2\<close> there and changes no register, \<open>lw\<close> writes the content
  of that cell into \<open>rd\<close>, and 0 when the cell was never stored to. A store to
  address 6 followed by a load from address 4 or from address 7 reads the stored word
  back, as does any load from an address in the same aligned word.
\<close>

theorem sw_lw_word_aliasing:
  assumes "length (regs s) = 32" and "0 \<le> rd" and "rd < 32"
    and "get_reg s rs1 = Inr base" and "get_reg s rs2 = Inr v"
    and "0 \<le> v" and "v < 2 ^ 32"
    and "a = (base + imm) mod 2 ^ 32"
  shows "execute ''sw'' rd rs1 (Some rs2) (Some imm) s
           = Inr (s\<lparr>mem := (mem s)((a div 4) * 4 \<mapsto> v)\<rparr>)
       \<and> execute ''lw'' rd rs1 None (Some imm) s
           = Inr (s\<lparr>regs := (regs s)
                [nat rd := (case mem s ((a div 4) * 4) of None \<Rightarrow> 0 | Some w \<Rightarrow> w mod 2 ^ 32)]\<rparr>)
       \<and> (a = 6 \<longrightarrow>
            reg_after (bind_err (execute ''sw'' rd rs1 (Some rs2) (Some imm) s)
                                (execute ''lw'' rd rs1 None (Some (imm - 2)))) rd = Inr v
          \<and> reg_after (bind_err (execute ''sw'' rd rs1 (Some rs2) (Some imm) s)
                                (execute ''lw'' rd rs1 None (Some (imm + 1)))) rd = Inr v)
       \<and> load_word (store_word s 6 v) 4 = v
       \<and> load_word (store_word s 6 v) 7 = v
       \<and> (a' div 4 = a div 4 \<longrightarrow> load_word (store_word s a v) a' = v)
       \<and> (mem s ((a div 4) * 4) = None \<longrightarrow>
            reg_after (execute ''lw'' rd rs1 None (Some imm) s) rd = Inr 0)"
proof -
  have v: "v mod 2 ^ 32 = v" using assms(6,7) by simp
  have sw: "execute ''sw'' rd rs1 (Some rs2) (Some imm) s = Inr (store_word s a v)"
    by (simp add: execute_sw [OF assms(4,5)] assms(8))
  have sw': "store_word s a v = s\<lparr>mem := (mem s)((a div 4) * 4 \<mapsto> v)\<rparr>"
    using v by (simp add: store_word_def to_unsigned_32_mod)
  have lw: "execute ''lw'' rd rs1 None (Some imm) s = set_reg s rd (load_word s a)"
    by (simp add: execute_imm [OF assms(4)] assms(8))
  have lw': "set_reg s rd (load_word s a)
      = Inr (s\<lparr>regs := (regs s)
                [nat rd := (case mem s ((a div 4) * 4) of None \<Rightarrow> 0 | Some w \<Rightarrow> w mod 2 ^ 32)]\<rparr>)"
    using assms(1-3) by (simp add: set_reg_ok load_word_def split: option.split)
  have after: "reg_after (bind_err (execute ''sw'' rd rs1 (Some rs2) (Some imm) s)
                                (execute ''lw'' rd rs1 None (Some j))) rd = Inr v"
    if "((base + j) mod 2 ^ 32) div 4 = a div 4" for j
  proof -
    have g: "get_reg (store_word s a v) rs1 = Inr base"
      by (simp add: get_reg_store_word assms(4))
    have l: "length (regs (store_word s a v)) = 32"
      by (simp add: store_word_simps assms(1))
    have "load_word (store_word s a v) ((base + j) mod 2 ^ 32) = v"
      using load_store_same [OF that [symmetric], of s v] v by simp
    then show ?thesis
      using assms(2,3) v by (simp add: sw execute_imm [OF g] reg_after_set_reg [OF l])
  qed
  have m2: "(base + (imm - 2)) mod 2 ^ 32 = 4" if "a = 6"
  proof -
    have "(base + (imm - 2)) mod 2 ^ 32 = (base + imm - 2) mod 2 ^ 32"
      by (simp add: algebra_simps)
    also have "\<dots> = ((base + imm) mod 2 ^ 32 - 2) mod 2 ^ 32"
      by (rule mod_diff_left_eq [symmetric])
    finally have "(base + (imm - 2)) mod 2 ^ 32 = ((base + imm) mod 2 ^ 32 - 2) mod 2 ^ 32" .
    then show ?thesis using that assms(8) by simp
  qed
  have p1: "(base + (imm + 1)) mod 2 ^ 32 = 7" if "a = 6"
  proof -
    have "(base + (imm + 1)) mod 2 ^ 32 = (base + imm + 1) mod 2 ^ 32"
      by (simp add: algebra_simps)
    also have "\<dots> = ((base + imm) mod 2 ^ 32 + 1) mod 2 ^ 32"
      by (rule mod_add_left_eq [symmetric])
    finally have "(base + (imm + 1)) mod 2 ^ 32 = ((base + imm) mod 2 ^ 32 + 1) mod 2 ^ 32" .
    then show ?thesis using that assms(8) by simp
  qed
  have c3: "a = 6 \<longrightarrow>
            reg_after (bind_err (execute ''sw'' rd rs1 (Some rs2) (Some imm) s)
                                (execute ''lw'' rd rs1 None (Some (imm - 2)))) rd = Inr v
          \<and> reg_after (bind_err (execute ''sw'' rd rs1 (Some rs2) (Some imm) s)
                                (execute ''lw'' rd rs1 None (Some (imm + 1)))) rd = Inr v"
  proof (intro impI conjI)
    assume A: "a = 6"
    have "((base + (imm - 2)) mod 2 ^ 32) div 4 = a div 4"
      using m2 [OF A] A by simp
    then show "reg_after (bind_err (execute ''sw'' rd rs1 (Some rs2) (Some imm) s)
                                (execute ''lw'' rd rs1 None (Some (imm - 2)))) rd = Inr v"
      by (rule after)
  next
    assume A: "a = 6"
    have "((base + (imm + 1)) mod 2 ^ 32) div 4 = a div 4"
      using p1 [OF A] A by simp
    then show "reg_after (bind_err (execute ''sw'' rd rs1 (Some rs2) (Some imm) s)
                                (execute ''lw'' rd rs1 None (Some (imm + 1)))) rd = Inr v"
      by (rule after)
  qed
  have c4: "load_word (store_word s 6 v) 4 = v" "load_word (store_word s 6 v) 7 = v"
    using v by (simp_all add: load_store_same)
  have c5: "a' div 4 = a div 4 \<longrightarrow> load_word (store_word s a v) a' = v"
    using v by (simp add: load_store_same)
  have c6: "mem s ((a div 4) * 4) = None \<longrightarrow>
            reg_after (execute ''lw'' rd rs1 None (Some imm) s) rd = Inr 0"
    using assms(1-3) by (simp add: lw reg_after_set_reg load_word_def)
  show ?thesis
    using sw sw' lw lw' c3 c4 c5 c6 by simp
qed

lemma mem_cpu_with: "mem (cpu_with r v) = Map.empty"
  by (simp add: cpu_with_def ReferenceCPU_def)

theorem sw_lw_word_aliasing_witness:
  "length (regs (cpu_with 2 0xDEADBEEF)) = 32 \<and> (0::int) \<le> 3 \<and> (3::int) < 32
   \<and> get_reg (cpu_with 2 0xDEADBEEF) 0 = Inr 0
   \<and> get_reg (cpu_with 2 0xDEADBEEF) 2 = Inr 0xDEADBEEF
   \<and> (0::int) \<le> 0xDEADBEEF \<and> (0xDEADBEEF::int) < 2 ^ 32
   \<and> (6::int) = (0 + 6) mod 2 ^ 32
   \<and> (5::int) div 4 = 6 div 4
   \<and> mem (cpu_with 2 0xDEADBEEF) ((6 div 4) * 4) = None
   \<and> execute ''sw'' 3 0 (Some 2) (Some 6) (cpu_with 2 0xDEADBEEF)
       = Inr ((cpu_with 2 0xDEADBEEF)\<lparr>mem := (mem (cpu_with 2 0xDEADBEEF))(4 \<mapsto> 0xDEADBEEF)\<rparr>)
   \<and> reg_after (bind_err (execute ''sw'' 3 0 (Some 2) (Some 6) (cpu_with 2 0xDEADBEEF))
                          (execute ''lw'' 3 0 None (Some 4))) 3 = Inr 0xDEADBEEF
   \<and> reg_after (bind_err (execute ''sw'' 3 0 (Some 2) (Some 6) (cpu_with 2 0xDEADBEEF))
                          (execute ''lw'' 3 0 None (Some 7))) 3 = Inr 0xDEADBEEF
   \<and> load_word (store_word (cpu_with 2 0xDEADBEEF) 6 0xDEADBEEF) 5 = 0xDEADBEEF
   \<and> reg_after (execute ''lw'' 3 0 None (Some 6) (cpu_with 2 0xDEADBEEF)) 3 = Inr 0"
proof -
  have g: "get_reg (cpu_with 2 0xDEADBEEF) 0 = Inr 0"
    "get_reg (cpu_with 2 0xDEADBEEF) 2 = Inr 0xDEADBEEF"
    by (simp_all add: get_reg_cpu_with)
  have a: "(6::int) = (0 + 6) mod 2 ^ 32" by simp
  show ?thesis
    using sw_lw_word_aliasing [OF length_cpu_with _ _ g _ _ a, of 3 5]
    by (simp add: execute_def get_reg_def set_reg_def py_index_def reg_after_def
        cpu_with_def ReferenceCPU_def load_word_def store_word_def to_unsigned_32_mod
        and_mask32)
qed

text \<open>
  Claim C5 as stated fails: \<open>execute\<close> adds the immediate as it was passed, the
  helper \<open>_sign_extend_12\<close> is never called. On a fresh simulator \<open>addi\<close> with
  \<open>rd = 1\<close>, \<open>rs1 = 0\<close> and \<open>imm = 4096\<close> leaves 4096 in register 1, where
  \<open>(0 + sign_extend_12 4096) mod 2^32\<close> is 0.
\<close>

theorem addi_immediate_not_truncated:
  "get_reg ReferenceCPU 0 = Inr 0
   \<and> reg_after (execute ''addi'' 1 0 None (Some 4096) ReferenceCPU) 1 = Inr 4096
   \<and> (0 + sign_extend_12 4096) mod 2 ^ 32 = 0"
  by (simp add: execute_def get_reg_def set_reg_def py_index_def reg_after_def
      regs_ReferenceCPU to_unsigned_32_mod sign_extend_12_alt)

text \<open>
  Claim C5, amended. For an immediate in the range \<open>-2048 \<dots> 2047\<close>, the range the
  generators pass, \<open>addi\<close> stores \<open>(rs1_value + sign_extend_12 imm) mod 2^32\<close> into
  \<open>rd\<close>, for every register-file state.
\<close>

theorem addi_sign_extended_in_range:
  assumes "length (regs s) = 32" and "0 \<le> rd" and "rd < 32"
    and "get_reg s rs1 = Inr a"
    and "- 2048 \<le> imm" and "imm \<le> 2047"
  shows "execute ''addi'' rd rs1 None (Some imm) s
           = Inr (s\<lparr>regs := (regs s)[nat rd := (a + sign_extend_12 imm) mod 2 ^ 32]\<rparr>)"
  using assms(1-3)
  by (simp add: execute_imm [OF assms(4)] set_reg_ok sign_extend_12_id [OF assms(5,6)])

theorem addi_sign_extended_in_range_witness:
  "length (regs (cpu_with 5 7)) = 32 \<and> (0::int) \<le> 6 \<and> (6::int) < 32
   \<and> get_reg (cpu_with 5 7) 5 = Inr 7 \<and> (- 2048::int) \<le> - 2048 \<and> (- 2048::int) \<le> 2047
   \<and> sign_extend_12 (- 2048) = - 2048
   \<and> execute ''addi'' 6 5 None (Some (- 2048)) (cpu_with 5 7)
       = Inr ((cpu_with 5 7)\<lparr>regs := (regs (cpu_with 5 7))[6 := 4294965255]\<rparr>)"
proof -
  have g: "get_reg (cpu_with 5 7) 5 = Inr 7"
    by (simp add: get_reg_cpu_with)
  show ?thesis
    using addi_sign_extended_in_range [OF length_cpu_with _ _ g, of 6 "- 2048"] g
    by (simp add: length_cpu_with sign_extend_12_id)
qed

text \<open>
  Claim C9. An operation name outside the nine supported ones, called with register
  indices of the register file, raises nothing: no branch of the chain matches,
  \<open>res\<close> keeps its initial 0 and is committed to \<open>rd\<close>; memory and the other
  registers are unchanged.
\<close>

theorem execute_unknown_op:
  assumes "op \<notin> {''add'', ''sub'', ''and'', ''or'', ''slt'', ''addi'', ''lui'', ''sw'', ''lw''}"
    and "length (regs s) = 32"
    and "0 \<le> rd" and "rd < 32" and "0 \<le> rs1" and "rs1 < 32"
    and "case rs2 of None \<Rightarrow> True | Some r \<Rightarrow> 0 \<le> r \<and> r < 32"
  shows "execute op rd rs1 rs2 imm s = Inr (s\<lparr>regs := (regs s)[nat rd := 0]\<rparr>)"
  using assms
  by (simp add: execute_def get_reg_ok set_reg_ok Let_def split: option.splits)

theorem execute_unknown_op_witness:
  "''mul'' \<notin> {''add'', ''sub'', ''and'', ''or'', ''slt'', ''addi'', ''lui'', ''sw'', ''lw''}
   \<and> length (regs (cpu_with 4 99)) = 32
   \<and> (0::int) \<le> 4 \<and> (4::int) < 32 \<and> (0::int) \<le> 1 \<and> (1::int) < 32
   \<and> (0::int) \<le> 2 \<and> (2::int) < 32
   \<and> get_reg (cpu_with 4 99) 4 = Inr 99
   \<and> execute ''mul'' 4 1 (Some 2) None (cpu_with 4 99)
       = Inr ((cpu_with 4 99)\<lparr>regs := (regs (cpu_with 4 99))[4 := 0]\<rparr>)
   \<and> reg_after (execute ''mul'' 4 1 (Some 2) None (cpu_with 4 99)) 4 = Inr 0"
  using execute_unknown_op [of "''mul''" "cpu_with 4 99" 4 1 "Some 2" None]
  by (simp add: length_cpu_with reg_after_def get_reg_ok)
    (simp add: cpu_with_def regs_ReferenceCPU)

text \<open>
  Claim C10. Register 0 is an ordinary cell. Each of the eight operations with a
  register destination, called with \<open>rd = 0\<close>, leaves its result masked to 32 bits
  in register 0, and \<open>get_reg 0\<close> returns it afterwards; on a fresh simulator
  \<open>addi\<close> with \<open>rd = 0\<close>, \<open>rs1 = 0\<close>, \<open>imm = 5\<close> makes register 0 read 5.
\<close>

theorem register_zero_writable:
  assumes "length (regs s) = 32"
    and "get_reg s rs1 = Inr a" and "get_reg s rs2 = Inr b"
  shows "reg_after (execute ''add'' 0 rs1 (Some rs2) None s) 0 = Inr ((a + b) mod 2 ^ 32)
       \<and> reg_after (execute ''sub'' 0 rs1 (Some rs2) None s) 0 = Inr ((a - b) mod 2 ^ 32)
       \<and> reg_after (execute ''and'' 0 rs1 (Some rs2) None s) 0 = Inr ((a AND b) mod 2 ^ 32)
       \<and> reg_after (execute ''or'' 0 rs1 (Some rs2) None s) 0 = Inr ((a OR b) mod 2 ^ 32)
       \<and> reg_after (execute ''slt'' 0 rs1 (Some rs2) None s) 0
           = Inr (if to_signed_32 a < to_signed_32 b then 1 else 0)
       \<and> reg_after (execute ''addi'' 0 rs1 None (Some i) s) 0 = Inr ((a + i) mod 2 ^ 32)
       \<and> reg_after (execute ''lui'' 0 rs1 None (Some i) s) 0
           = Inr (push_bit 12 (i AND 0xFFFFF) mod 2 ^ 32)
       \<and> reg_after (execute ''lw'' 0 rs1 None (Some i) s) 0
           = Inr (load_word s ((a + i) mod 2 ^ 32) mod 2 ^ 32)
       \<and> reg_after (execute ''addi'' 0 0 None (Some 5) ReferenceCPU) 0 = Inr 5"
proof -
  have c: "reg_after (execute ''addi'' 0 0 None (Some 5) ReferenceCPU) 0 = Inr 5"
    by (simp add: execute_def get_reg_def set_reg_def py_index_def reg_after_def
      regs_ReferenceCPU to_unsigned_32_mod)
  show ?thesis
    using assms(1)
    by (simp add: execute_alu [OF assms(2,3)] execute_imm [OF assms(2)] reg_after_set_reg c)
qed

theorem register_zero_writable_witness:
  "length (regs (cpu_with 7 12)) = 32
   \<and> get_reg (cpu_with 7 12) 7 = Inr 12 \<and> get_reg (cpu_with 7 12) 0 = Inr 0
   \<and> reg_after (execute ''add'' 0 7 (Some 0) None (cpu_with 7 12)) 0 = Inr 12
   \<and> reg_after (execute ''sub'' 0 7 (Some 0) None (cpu_with 7 12)) 0 = Inr 12
   \<and> reg_after (execute ''or'' 0 7 (Some 0) None (cpu_with 7 12)) 0 = Inr 12
   \<and> reg_after (execute ''addi'' 0 7 None (Some 3) (cpu_with 7 12)) 0 = Inr 15
   \<and> reg_after (execute ''lui'' 0 7 None (Some 1) (cpu_with 7 12)) 0 = Inr 4096"
proof -
  have g: "get_reg (cpu_with 7 12) 7 = Inr 12" "get_reg (cpu_with 7 12) 0 = Inr 0"
    by (simp_all add: get_reg_cpu_with)
  show ?thesis
    using register_zero_writable [OF length_cpu_with g, of 3]
      register_zero_writable [OF length_cpu_with g, of 1] g
    by (simp add: length_cpu_with)
qed

section \<open>Indexing the results of the splits\<close>

text \<open>
  The assembler indexes the results of its splits with the literals 0 and 1. These
  positions always exist: a split never returns the empty list, and a split at a
  character that occurs in the string returns at least two pieces.
\<close>

lemma split_chr_nonempty: "split_chr c s \<noteq> []"
  by (induction s) (auto split: list.splits)

lemma length_split_chr: "length (split_chr c s) = Suc (length (filter (\<lambda>x. x = c) s))"
  by (induction s) (auto simp: split_chr_nonempty split: list.splits)

lemma split_chr_two: "c \<in> set s \<Longrightarrow> 2 \<le> length (split_chr c s)"
proof -
  assume "c \<in> set s"
  then have "filter (\<lambda>x. x = c) s \<noteq> []" by (simp add: filter_empty_conv)
  then have "1 \<le> length (filter (\<lambda>x. x = c) s)" by (cases "filter (\<lambda>x. x = c) s") auto
  then show ?thesis by (simp add: length_split_chr)
qed

lemma re_split_ws_nonempty: "re_split_ws s \<noteq> []"
proof (induction s)
  case Nil
  show ?case by simp
next
  case (Cons x xs)
  show ?case
  proof (cases "isspace x")
    case True
    then have "re_split_ws (x # xs) = re_split_ws xs \<or> re_split_ws (x # xs) = [] # re_split_ws xs"
      by (cases xs) simp_all
    with Cons show ?thesis by auto
  next
    case False
    then show ?thesis by (cases "re_split_ws xs") simp_all
  qed
qed

section \<open>Evaluating the assembler on literals\<close>

text \<open>
  Rules that unfold the numeric definitions on numerals only, so that the simplifier
  evaluates closed terms and leaves terms with variables alone.
\<close>

lemma replicate_num: "replicate (numeral k) x = x # replicate (pred_numeral k) x"
  by (simp add: numeral_eq_Suc)

lemmas bin_digits_num =
  bin_digits.simps [of "numeral k"] bin_digits.simps [of 0] bin_digits.simps [of 1]
  bin_digits.simps [of "Suc 0"] for k

lemmas to_bin_num =
  to_bin_def [of "numeral k"] to_bin_def [of "- numeral k"] to_bin_def [of 0] to_bin_def [of 1]
  to_bin_def [of "- 1"] for k

lemmas format_0b_num =
  format_0b_def [of "numeral k"] format_0b_def [of "- numeral k"] format_0b_def [of 0]
  format_0b_def [of 1] format_0b_def [of "- 1"] for k

lemmas to_bin_eval = to_bin_num format_0b_num zero_pad_def bin_digits_num replicate_num
lemmas str_eval = strip_def isspace_def remove_commas_def
lemmas int_eval = py_int0_def int_space_def digit_value_def
lemmas enc_eval = encode_instr_def opcodes_def arg_at_def field_def parse_reg_def parse_imm_def
  regs_table_def mem_operand_def
lemmas asm_eval = assemble_def pass1_def pass1_step_def enc_eval str_eval to_bin_eval int_eval

section \<open>\<open>to_bin\<close>\<close>

text \<open>
  The result is never shorter than the width, so the fixed positions that the B and J
  branches read (\<open>imm_bin[0]\<close>, \<open>imm_bin[1]\<close>, \<open>imm_bin[9]\<close>) always exist.
\<close>

lemma length_zero_pad: "width \<le> length (zero_pad width ds)"
  by (simp add: zero_pad_def)

lemma length_to_bin_ge: "bits \<le> length (to_bin v bits)"
proof -
  have "bits - 1 \<le> length (zero_pad (bits - 1) ds)" for ds
    by (rule length_zero_pad)
  then have "bits \<le> Suc (length (zero_pad (bits - 1) ds))" for ds
    using length_zero_pad [of "bits - 1" ds] by arith
  then show ?thesis
    by (simp add: to_bin_def format_0b_def Let_def length_zero_pad)
qed

lemma bin_value_snoc: "bin_value (ds @ [c]) = 2 * bin_value ds + bit_of c"
  by (simp add: bin_value_def)

lemma bin_value_zeros: "bin_value (replicate k (CHR ''0'') @ ds) = bin_value ds"
proof -
  have "foldl (\<lambda>acc c. 2 * acc + bit_of c) 0 (replicate k (CHR ''0'')) = 0"
    by (induction k) (simp_all add: bit_of_def)
  then show ?thesis by (simp add: bin_value_def)
qed

lemma bin_value_bin_digits: "bin_value (bin_digits n) = n"
proof (induction n rule: bin_digits.induct)
  case (1 n)
  show ?case
  proof (cases "n < 2")
    case True
    then have "n = 0 \<or> n = 1" by auto
    then show ?thesis
      by (auto simp: bin_digits.simps [of 0] bin_digits.simps [of 1] bin_digits.simps [of "Suc 0"]
            bin_value_def bit_of_def)
  next
    case False
    with "1" have "bin_value (bin_digits (n div 2)) = n div 2" by simp
    with False show ?thesis
      by (subst bin_digits.simps) (simp add: bin_value_snoc bit_of_def, presburger)
  qed
qed

lemma set_bin_digits: "set (bin_digits n) \<subseteq> {CHR ''0'', CHR ''1''}"
proof (induction n rule: bin_digits.induct)
  case (1 n)
  show ?case
  proof (cases "n < 2")
    case True
    then show ?thesis by (subst bin_digits.simps) simp
  next
    case False
    with "1" have "set (bin_digits (n div 2)) \<subseteq> {CHR ''0'', CHR ''1''}" by simp
    with False show ?thesis by (subst bin_digits.simps) auto
  qed
qed

lemma length_bin_digits: "n < 2 ^ b \<Longrightarrow> 1 \<le> b \<Longrightarrow> length (bin_digits n) \<le> b"
proof (induction n arbitrary: b rule: bin_digits.induct)
  case (1 n)
  show ?case
  proof (cases "n < 2")
    case True
    with "1.prems" show ?thesis by (subst bin_digits.simps) simp
  next
    case False
    with "1.prems" obtain b' where b: "b = Suc b'" by (cases b) auto
    with False "1.prems" have "1 \<le> b'" by (cases b') auto
    moreover from b "1.prems" have "n div 2 < 2 ^ b'" by auto
    ultimately have "length (bin_digits (n div 2)) \<le> b'"
      using "1.IH" False by simp
    with False b show ?thesis by (subst bin_digits.simps) simp
  qed
qed

text \<open>
  Claim C4 as stated fails: \<open>to_bin\<close> never cuts a value down to the field. A value
  of \<open>2^bits\<close> or more is rendered with all its digits (4096 on 12 bits gives 13
  characters, of value 4096 and not 0), a value below \<open>-2^bits\<close> stays negative
  after the bias and is rendered with a minus sign, and width 0 still gives one digit.
\<close>

theorem to_bin_overflows_field:
  "to_bin 4096 12 = ''1000000000000'' \<and> length (to_bin 4096 12) \<noteq> 12
   \<and> bin_value (to_bin 4096 12) \<noteq> 4096 mod 2 ^ 12
   \<and> to_bin (- 5000) 12 = ''-01110001000''
   \<and> to_bin 0 0 = ''0''"
  by (simp add: to_bin_eval bin_value_def bit_of_def)

text \<open>
  Claim C4, amended. For a width of at least 1 and a value \<open>v\<close> with
  \<open>-2^bits \<le> v < 2^bits\<close>, \<open>to_bin v bits\<close> has exactly \<open>bits\<close> characters, all
  \<open>0\<close> or \<open>1\<close>, and its unsigned binary value is \<open>v mod 2^bits\<close>: a negative value
  is biased by \<open>2^bits\<close>.
\<close>

theorem to_bin_in_range:
  assumes "1 \<le> bits" and "- (2 ^ bits) \<le> v" and "v < 2 ^ bits"
  shows "length (to_bin v bits) = bits
       \<and> set (to_bin v bits) \<subseteq> {CHR ''0'', CHR ''1''}
       \<and> int (bin_value (to_bin v bits)) = v mod 2 ^ bits"
proof -
  define val where "val = (if v < 0 then 2 ^ bits + v else v)"
  have val: "0 \<le> val" "val < 2 ^ bits" using assms by (auto simp: val_def)
  have vm: "v mod 2 ^ bits = val"
  proof (cases "v < 0")
    case True
    with assms have "v mod 2 ^ bits = v + 2 ^ bits"
      by (intro int_mod_pos_eq [where q = "- 1"]) auto
    with True show ?thesis by (simp add: val_def)
  next
    case False
    with assms have "v mod 2 ^ bits = v" by (intro mod_pos_pos_trivial) auto
    with False show ?thesis by (simp add: val_def)
  qed
  have tb: "to_bin v bits = zero_pad bits (bin_digits (nat val))"
  proof (cases "v < 0")
    case True
    with assms have "\<not> 2 ^ bits + v < 0" by simp
    with True show ?thesis by (simp add: to_bin_def format_0b_def val_def)
  next
    case False
    then show ?thesis by (simp add: to_bin_def format_0b_def val_def)
  qed
  have "nat val < 2 ^ bits" using val
    by (metis nat_less_numeral_power_cancel_iff zless_nat_conj nat_less_iff of_nat_numeral of_nat_power)
  then have len: "length (bin_digits (nat val)) \<le> bits"
    using assms(1) by (rule length_bin_digits)
  have "length (to_bin v bits) = bits" using len by (simp add: tb zero_pad_def)
  moreover have "set (to_bin v bits) \<subseteq> {CHR ''0'', CHR ''1''}"
    using set_bin_digits [of "nat val"] by (auto simp: tb zero_pad_def)
  moreover have "int (bin_value (to_bin v bits)) = v mod 2 ^ bits"
    using val by (simp add: tb zero_pad_def bin_value_zeros bin_value_bin_digits vm)
  ultimately show ?thesis by blast
qed

theorem to_bin_in_range_witness:
  "(1::nat) \<le> 13 \<and> - (2 ^ 13) \<le> (- 8::int) \<and> (- 8::int) < 2 ^ 13
   \<and> to_bin (- 8) 13 = ''1111111111000''
   \<and> length (to_bin (- 8) 13) = 13
   \<and> set (to_bin (- 8) 13) \<subseteq> {CHR ''0'', CHR ''1''}
   \<and> int (bin_value (to_bin (- 8) 13)) = (- 8) mod 2 ^ 13"
  using to_bin_in_range [of 13 "- 8"]
  by (simp add: to_bin_eval)

section \<open>Concrete programs\<close>

text \<open>
  Claim C1. The line \<open>addi x1, x0, 10\<close> is encoded as the one word
  \<open>00000000101000000000000010010011\<close>, made of the fields imm \<open>000000001010\<close>,
  rs1 \<open>00000\<close>, funct3 \<open>000\<close>, rd \<open>00001\<close> and opcode \<open>0010011\<close>; and \<open>addi\<close>
  with \<open>rd = 1\<close>, \<open>rs1 = 0\<close>, \<open>imm = 10\<close> on a fresh simulator leaves 10 in register 1
  and 0 in every other register.
\<close>

theorem addi_x1_x0_10:
  "assemble [''addi x1, x0, 10''] = Inr [''00000000101000000000000010010011'']
   \<and> parse_reg ''x1'' = Inr 1 \<and> parse_reg ''x0'' = Inr 0
   \<and> parse_imm ''10'' Map.empty 0 = Inr 10
   \<and> to_bin 10 12 = ''000000001010'' \<and> to_bin 0 5 = ''00000'' \<and> to_bin 1 5 = ''00001''
   \<and> map_option funct3 (opcodes ''addi'') = Some (Some ''000'')
   \<and> map_option opcode (opcodes ''addi'') = Some ''0010011''
   \<and> ''000000001010'' @ ''00000'' @ ''000'' @ ''00001'' @ ''0010011''
       = ''00000000101000000000000010010011''
   \<and> execute ''addi'' 1 0 None (Some 10) ReferenceCPU
       = Inr \<lparr>regs = [0, 10, 0, 0, 0, 0, 0, 0, 0, 0, 0, 0, 0, 0, 0, 0,
                       0, 0, 0, 0, 0, 0, 0, 0, 0, 0, 0, 0, 0, 0, 0, 0], mem = Map.empty\<rparr>"
proof -
  have "execute ''addi'' 1 0 None (Some 10) ReferenceCPU
       = Inr \<lparr>regs = [0, 10, 0, 0, 0, 0, 0, 0, 0, 0, 0, 0, 0, 0, 0, 0,
                       0, 0, 0, 0, 0, 0, 0, 0, 0, 0, 0, 0, 0, 0, 0, 0], mem = Map.empty\<rparr>"
    by (simp add: execute_def get_reg_def set_reg_def py_index_def ReferenceCPU_def
        to_unsigned_32_mod replicate_num)
  then show ?thesis
    by (simp add: asm_eval)
qed

section \<open>Errors of the encoder\<close>

text \<open>
  Pass 2 returns a list only when every queued instruction was encoded, and then one
  word for each; a single failing instruction makes the whole call fail. The four
  errors the assembler raises itself quote the rejected text.
\<close>

lemma pass2_Inr_iff:
  "pass2 labels qs = Inr ws \<longleftrightarrow> map (encode_instr labels) qs = map Inr ws"
proof (induction qs arbitrary: ws)
  case Nil
  then show ?case by auto
next
  case (Cons q qs)
  show ?case
  proof (cases "encode_instr labels q")
    case (Inl e)
    then show ?thesis by auto
  next
    case (Inr w)
    show ?thesis
    proof (cases "pass2 labels qs")
      case (Inl e)
      with Cons.IH have "\<And>ws'. map (encode_instr labels) qs \<noteq> map Inr ws'" by simp
      with Inl Inr show ?thesis by (cases ws) auto
    next
      case r: (Inr ws')
      with Cons.IH [of ws'] have m: "map (encode_instr labels) qs = map Inr ws'" by simp
      show ?thesis
      proof
        assume "pass2 labels (q # qs) = Inr ws"
        with Inr r have "ws = w # ws'" by simp
        with Inr m show "map (encode_instr labels) (q # qs) = map Inr ws" by simp
      next
        assume a: "map (encode_instr labels) (q # qs) = map Inr ws"
        then obtain v vs where ws: "ws = v # vs" by (cases ws) auto
        with a Inr have "v = w" "map (encode_instr labels) qs = map Inr vs" by auto
        with m have "map Inr vs = (map Inr ws' :: (error + string) list)" by simp
        then have "vs = ws'" by (simp add: inj_map_eq_map)
        with ws \<open>v = w\<close> Inr r show "pass2 labels (q # qs) = Inr ws" by simp
      qed
    qed
  qed
qed

lemma pass2_fails:
  "q \<in> set qs \<Longrightarrow> encode_instr labels q = Inl e \<Longrightarrow> \<exists>e'. pass2 labels qs = Inl e'"
proof (cases "pass2 labels qs")
  case (Inl e')
  then show ?thesis by blast
next
  case (Inr ws)
  assume q: "q \<in> set qs" and e: "encode_instr labels q = Inl e"
  from Inr have "map (encode_instr labels) qs = map Inr ws" by (simp add: pass2_Inr_iff)
  moreover from q have "encode_instr labels q \<in> set (map (encode_instr labels) qs)" by simp
  ultimately have "Inl e \<in> set (map Inr ws :: (error + string) list)" using e by simp
  then show ?thesis by auto
qed

lemma unknown_instruction:
  "opcodes (re_split_ws line ! 0) = None \<Longrightarrow>
   encode_instr labels (pc, line) = Inl (ValueError (''Unknown instruction: '' @ re_split_ws line ! 0))"
  by (simp add: encode_instr_def Let_def)

lemma unknown_register:
  "map_of regs_table (remove_commas (strip s)) = None \<Longrightarrow>
   parse_reg s = Inl (ValueError (''Unknown register: '' @ remove_commas (strip s)))"
  by (simp add: parse_reg_def Let_def)

lemma invalid_immediate:
  "labels (remove_commas (strip s)) = None \<Longrightarrow> py_int0 (remove_commas (strip s)) = None \<Longrightarrow>
   parse_imm s labels pc = Inl (ValueError (''Invalid immediate: '' @ remove_commas (strip s)))"
  by (simp add: parse_imm_def Let_def)

lemma invalid_memory_operand:
  "CHR ''('' \<notin> set a \<or> a = [] \<or> last a \<noteq> CHR '')'' \<Longrightarrow>
   mem_operand a labels pc = Inl (ValueError (''Invalid memory operand: '' @ a))"
  by (auto simp: mem_operand_def)

text \<open>
  Claim C8 fails on a memory operand with more than one opening parenthesis. The guard
  lets \<open>0((x2)\<close> through, the split gives three pieces, and the unpacking into two
  names raises a ValueError whose message names no token, where the guard's own error
  for \<open>0(x2\<close> and for \<open>0x2)\<close> quotes the operand.
\<close>

theorem assemble_nested_paren_operand:
  "assemble [''lw x1, 0((x2)''] = Inl (ValueError ''too many values to unpack (expected 2)'')
   \<and> assemble [''sw x1, 0((x2)''] = Inl (ValueError ''too many values to unpack (expected 2)'')
   \<and> assemble [''lw x1, 0(x2''] = Inl (ValueError ''Invalid memory operand: 0(x2'')
   \<and> assemble [''lw x1, 0x2)''] = Inl (ValueError ''Invalid memory operand: 0x2)'')"
  by (simp add: asm_eval)

section \<open>Pass 1 and label resolution\<close>

lemma pass1_step_shape:
  "pass1_step (labels, pc, ins) raw =
     ((case declared_label raw of None \<Rightarrow> labels | Some n \<Rightarrow> labels(n \<mapsto> pc)),
      (case queued_text raw of None \<Rightarrow> pc | Some t \<Rightarrow> pc + 4),
      (case queued_text raw of None \<Rightarrow> ins | Some t \<Rightarrow> ins @ [(pc, t)]))"
  by (simp add: pass1_step_def declared_label_def queued_text_def clean_line_def Let_def)

lemma pcs_ok_step:
  assumes "pcs_ok (pc, ins)" "pass1_step (labels, pc, ins) raw = (labels', pc', ins')"
  shows "pcs_ok (pc', ins')"
  using assms
  by (auto simp: pass1_step_shape pcs_ok_def split: option.splits)

lemma pcs_ok_foldl:
  "pcs_ok (pc, ins) \<Longrightarrow> foldl pass1_step (labels, pc, ins) ls = (labels', pc', ins')
     \<Longrightarrow> pcs_ok (pc', ins')"
proof (induction ls arbitrary: labels pc ins)
  case Nil
  then show ?case by simp
next
  case (Cons l ls)
  obtain l1 p1 i1 where s: "pass1_step (labels, pc, ins) l = (l1, p1, i1)"
    by (rule prod_cases3)
  with Cons.prems(1) have "pcs_ok (p1, i1)" by (rule pcs_ok_step)
  moreover from Cons.prems(2) s have "foldl pass1_step (l1, p1, i1) ls = (labels', pc', ins')"
    by simp
  ultimately show ?case by (rule Cons.IH)
qed

lemma pcs_ok_pass1: "pass1 ls = (labels, pc, ins) \<Longrightarrow> pcs_ok (pc, ins)"
  unfolding pass1_def by (rule pcs_ok_foldl [of 0 "[]"]) (simp_all add: pcs_ok_def)

lemma label_kept_foldl:
  "\<forall>l \<in> set ls. declared_label l \<noteq> Some name
     \<Longrightarrow> foldl pass1_step (labels, pc, ins) ls = (labels', pc', ins')
     \<Longrightarrow> labels' name = labels name"
proof (induction ls arbitrary: labels pc ins)
  case Nil
  then show ?case by simp
next
  case (Cons l ls)
  obtain l1 p1 i1 where s: "pass1_step (labels, pc, ins) l = (l1, p1, i1)"
    by (rule prod_cases3)
  from Cons.prems(1) have "declared_label l \<noteq> Some name" by simp
  with s have "l1 name = labels name"
    by (auto simp: pass1_step_shape split: option.splits)
  moreover from Cons.prems s have "labels' name = l1 name"
    by (intro Cons.IH [of l1 p1 i1]) simp_all
  ultimately show ?case by simp
qed

lemma last_declaration_entry:
  assumes "declared_label d = Some name"
    and "\<forall>l \<in> set post. declared_label l \<noteq> Some name"
    and "pass1 pre = (labels0, pc0, instructions0)"
    and "pass1 (pre @ d # post) = (labels, pc_end, instructions)"
  shows "labels name = Some (4 * int (length instructions0))"
proof -
  from assms(3) have "pcs_ok (pc0, instructions0)" by (rule pcs_ok_pass1)
  then have pc0: "pc0 = 4 * int (length instructions0)" by (simp add: pcs_ok_def)
  obtain l1 p1 i1 where s: "pass1_step (labels0, pc0, instructions0) d = (l1, p1, i1)"
    by (rule prod_cases3)
  with assms(1) have l1: "l1 name = Some pc0"
    by (auto simp: pass1_step_shape)
  from assms(3,4) s have "foldl pass1_step (l1, p1, i1) post = (labels, pc_end, instructions)"
    by (simp add: pass1_def)
  with assms(2) have "labels name = l1 name" by (rule label_kept_foldl)
  with l1 pc0 show ?thesis by simp
qed

lemma queued_pc:
  assumes "pass1 ls = (labels, pc_end, instructions)"
    and "k < length instructions" and "instructions ! k = (pc, text)"
  shows "pc = 4 * int k"
proof -
  from assms(1) have "pcs_ok (pc_end, instructions)" by (rule pcs_ok_pass1)
  then have "map fst instructions ! k = map (\<lambda>k. 4 * int k) [0..<length instructions] ! k"
    by (simp add: pcs_ok_def)
  with assms(2,3) show ?thesis by simp
qed

lemma pass2_nth:
  assumes "pass2 labels qs = Inr ws" and "k < length qs"
  shows "encode_instr labels (qs ! k) = Inr (ws ! k)"
proof -
  from assms(1) have m: "map (encode_instr labels) qs = map Inr ws"
    by (simp add: pass2_Inr_iff)
  then have "length qs = length ws" by (metis length_map)
  with assms(2) have "map (encode_instr labels) qs ! k = encode_instr labels (qs ! k)"
    "(map Inr ws :: (error + string) list) ! k = Inr (ws ! k)" by simp_all
  with m show ?thesis by simp
qed

lemma assemble_nth:
  assumes "pass1 ls = (labels, pc_end, instructions)"
    and "assemble ls = Inr ws" and "k < length instructions"
  shows "encode_instr labels (instructions ! k) = Inr (ws ! k)"
  using assms by (intro pass2_nth) (simp_all add: assemble_def)

section \<open>Label operands in pass 2\<close>

text \<open>
  An operand that is a key of the label table resolves to the label's address minus
  the address of the instruction, in \<open>parse_imm\<close> and in the operand
  \<open>imm(rs1)\<close> of \<open>lw\<close> and \<open>sw\<close>; each branch of the encoder then packs that
  value.
\<close>

lemma parse_imm_label:
  "labels name = Some lpc \<Longrightarrow> remove_commas (strip name) = name \<Longrightarrow>
   parse_imm name labels pc = Inr (lpc - pc)"
  by (simp add: parse_imm_def)

lemma split_chr_absent: "c \<notin> set ys \<Longrightarrow> split_chr c ys = [ys]"
  by (induction ys) auto

lemma split_chr_first: "c \<notin> set xs \<Longrightarrow> split_chr c (xs @ c # ys) = xs # split_chr c ys"
  by (induction xs) auto

lemma mem_operand_label:
  assumes "labels name = Some lpc" and "remove_commas (strip name) = name"
    and "CHR ''('' \<notin> set name" and "CHR ''('' \<notin> set r" and "parse_reg r = Inr rs1"
  shows "mem_operand (name @ CHR ''('' # r @ '')'') labels pc = Inr (lpc - pc, rs1)"
proof -
  have b: "butlast (name @ CHR ''('' # r @ '')'') = name @ CHR ''('' # r"
    by (simp add: butlast_append)
  have "split_chr (CHR ''('') (name @ CHR ''('' # r) = [name, r]"
    using assms(3,4) by (simp add: split_chr_first split_chr_absent)
  with b show ?thesis
    by (simp add: mem_operand_def parse_imm_label [where labels = labels and name = name, OF assms(1,2)] assms(5))
qed

lemma encode_B_label:
  assumes "labels name = Some lpc" and "remove_commas (strip name) = name"
    and "opcodes (mnemonic text) = Some op" and "otype op = B" and "funct3 op = Some f3"
    and "2 < length (operands text)"
    and "parse_reg (operands text ! 0) = Inr rs1" and "parse_reg (operands text ! 1) = Inr rs2"
    and "operands text ! 2 = name"
  shows "encode_instr labels (pc, text)
           = Inr ([to_bin (lpc - pc) 13 ! 0] @ take 6 (drop 2 (to_bin (lpc - pc) 13))
                  @ to_bin rs2 5 @ to_bin rs1 5 @ f3
                  @ take 4 (drop 8 (to_bin (lpc - pc) 13)) @ [to_bin (lpc - pc) 13 ! 1]
                  @ opcode op)"
proof -
  from assms have ne: "operands text \<noteq> []" by auto
  show ?thesis
    using assms(3-9) ne
    by (simp add: encode_instr_def Let_def mnemonic_def [symmetric] operands_def [symmetric]
      arg_at_def field_def parse_imm_label [where labels = labels and name = name, OF assms(1,2)])
qed

lemma encode_J_label:
  assumes "labels name = Some lpc" and "remove_commas (strip name) = name"
    and "opcodes (mnemonic text) = Some op" and "otype op = J"
    and "1 < length (operands text)"
    and "parse_reg (operands text ! 0) = Inr rd"
    and "operands text ! 1 = name"
  shows "encode_instr labels (pc, text)
           = Inr ([to_bin (lpc - pc) 21 ! 0] @ take 10 (drop 10 (to_bin (lpc - pc) 21))
                  @ [to_bin (lpc - pc) 21 ! 9] @ take 8 (drop 1 (to_bin (lpc - pc) 21))
                  @ to_bin rd 5 @ opcode op)"
proof -
  from assms have ne: "operands text \<noteq> []" by auto
  show ?thesis
    using assms(3-7) ne
    by (simp add: encode_instr_def Let_def mnemonic_def [symmetric] operands_def [symmetric]
      arg_at_def field_def parse_imm_label [where labels = labels and name = name, OF assms(1,2)])
qed

lemma encode_I_label:
  assumes "labels name = Some lpc" and "remove_commas (strip name) = name"
    and "opcodes (mnemonic text) = Some op" and "otype op = I" and "funct3 op = Some f3"
    and "2 < length (operands text)"
    and "parse_reg (operands text ! 0) = Inr rd" and "parse_reg (operands text ! 1) = Inr rs1"
    and "operands text ! 2 = name"
  shows "encode_instr labels (pc, text)
           = Inr (to_bin (lpc - pc) 12 @ to_bin rs1 5 @ f3 @ to_bin rd 5 @ opcode op)"
proof -
  from assms have ne: "operands text \<noteq> []" by auto
  show ?thesis
    using assms(3-9) ne
    by (simp add: encode_instr_def Let_def mnemonic_def [symmetric] operands_def [symmetric]
      arg_at_def field_def parse_imm_label [where labels = labels and name = name, OF assms(1,2)])
qed

lemma encode_U_label:
  assumes "labels name = Some lpc" and "remove_commas (strip name) = name"
    and "opcodes (mnemonic text) = Some op" and "otype op = U"
    and "1 < length (operands text)"
    and "parse_reg (operands text ! 0) = Inr rd"
    and "operands text ! 1 = name"
  shows "encode_instr labels (pc, text) = Inr (to_bin (lpc - pc) 20 @ to_bin rd 5 @ opcode op)"
proof -
  from assms have ne: "operands text \<noteq> []" by auto
  show ?thesis
    using assms(3-7) ne
    by (simp add: encode_instr_def Let_def mnemonic_def [symmetric] operands_def [symmetric]
      arg_at_def field_def parse_imm_label [where labels = labels and name = name, OF assms(1,2)])
qed

lemma encode_I_load_label:
  assumes "labels name = Some lpc" and "remove_commas (strip name) = name"
    and "opcodes (mnemonic text) = Some op" and "otype op = I_load" and "funct3 op = Some f3"
    and "1 < length (operands text)"
    and "parse_reg (operands text ! 0) = Inr rd"
    and "operands text ! 1 = name @ ''('' @ r @ '')''"
    and "CHR ''('' \<notin> set name" and "CHR ''('' \<notin> set r" and "parse_reg r = Inr rs1"
  shows "encode_instr labels (pc, text)
           = Inr (to_bin (lpc - pc) 12 @ to_bin rs1 5 @ f3 @ to_bin rd 5 @ opcode op)"
proof -
  from assms have ne: "operands text \<noteq> []" by auto
  show ?thesis
    using assms(3-8) ne
    by (simp add: encode_instr_def Let_def mnemonic_def [symmetric] operands_def [symmetric]
      arg_at_def field_def mem_operand_label [where labels = labels and name = name, OF assms(1,2,9,10,11)])
qed

lemma encode_S_label:
  assumes "labels name = Some lpc" and "remove_commas (strip name) = name"
    and "opcodes (mnemonic text) = Some op" and "otype op = S" and "funct3 op = Some f3"
    and "1 < length (operands text)"
    and "parse_reg (operands text ! 0) = Inr rs2"
    and "operands text ! 1 = name @ ''('' @ r @ '')''"
    and "CHR ''('' \<notin> set name" and "CHR ''('' \<notin> set r" and "parse_reg r = Inr rs1"
  shows "encode_instr labels (pc, text)
           = Inr (take 7 (to_bin (lpc - pc) 12) @ to_bin rs2 5 @ to_bin rs1 5 @ f3
                  @ drop 7 (to_bin (lpc - pc) 12) @ opcode op)"
proof -
  from assms have ne: "operands text \<noteq> []" by auto
  show ?thesis
    using assms(3-8) ne
    by (simp add: encode_instr_def Let_def mnemonic_def [symmetric] operands_def [symmetric]
      arg_at_def field_def mem_operand_label [where labels = labels and name = name, OF assms(1,2,9,10,11)])
qed

section \<open>Labels declared above and below their references\<close>

text \<open>
  Claim C6. Take any program in which \<open>d\<close> is the last line declaring \<open>loop\<close>,
  with the lines \<open>pre\<close> before it and \<open>post\<close> after it, and in which the
  instruction queued two places after the label's position is \<open>bne x1, x0, loop\<close>.
  Then the label is 8 below the branch, the operand resolves to -8, which is
  \<open>1111111111000\<close> on 13 bits, and the branch is encoded as imm[12] \<open>1\<close>,
  imm[10:5] \<open>111111\<close>, rs2 \<open>00000\<close>, rs1 \<open>00001\<close>, funct3 \<open>001\<close>, imm[4:1]
  \<open>1100\<close>, imm[11] \<open>1\<close>, opcode \<open>1100011\<close>; when the program assembles, this is
  the word at the branch's position in the output.
\<close>

theorem bne_backward_loop:
  assumes "declared_label d = Some ''loop''"
    and "\<forall>l \<in> set post. declared_label l \<noteq> Some ''loop''"
    and "pass1 pre = (labels0, pc0, instructions0)"
    and "pass1 (pre @ d # post) = (labels, pc_end, instructions)"
    and "length instructions0 + 2 < length instructions"
    and "instructions ! (length instructions0 + 2) = (pc, ''bne x1, x0, loop'')"
  shows "labels ''loop'' = Some (pc - 8)
       \<and> parse_imm ''loop'' labels pc = Inr (- 8)
       \<and> to_bin (- 8) 13 = ''1111111111000''
       \<and> encode_instr labels (pc, ''bne x1, x0, loop'')
           = Inr (''1'' @ ''111111'' @ ''00000'' @ ''00001'' @ ''001'' @ ''1100'' @ ''1''
                  @ ''1100011'')
       \<and> (assemble (pre @ d # post) = Inr ws \<longrightarrow>
            ws ! (length instructions0 + 2) = ''11111110000000001001110011100011'')"
proof -
  have lab0: "labels ''loop'' = Some (4 * int (length instructions0))"
    using assms(1-4) by (rule last_declaration_entry)
  have pc: "pc = 4 * int (length instructions0 + 2)"
    using assms(4-6) by (rule queued_pc)
  from lab0 pc have lab: "labels ''loop'' = Some (pc - 8)" by simp
  have imm: "parse_imm ''loop'' labels pc = Inr (- 8)"
    by (simp add: parse_imm_def str_eval lab)
  have tb: "to_bin (- 8) 13 = ''1111111111000''"
    by (simp add: to_bin_eval)
  have enc: "encode_instr labels (pc, ''bne x1, x0, loop'')
           = Inr ''11111110000000001001110011100011''"
    by (simp add: enc_eval str_eval to_bin_eval lab)
  have "ws ! (length instructions0 + 2) = ''11111110000000001001110011100011''"
    if "assemble (pre @ d # post) = Inr ws"
    using assemble_nth [OF assms(4) that assms(5)] assms(6) enc by simp
  with lab imm tb enc show ?thesis by simp
qed

theorem bne_backward_loop_witness:
  "declared_label ''loop:'' = Some ''loop''
   \<and> declared_label ''addi x1, x1, -1'' = None
   \<and> declared_label ''add x2, x2, x1'' = None
   \<and> declared_label ''bne x1, x0, loop'' = None
   \<and> pass1 [''addi x5, x0, 1''] = (Map.empty, 4, [(0::int, ''addi x5, x0, 1'')])
   \<and> pass1 ([''addi x5, x0, 1''] @ ''loop:'' # [''addi x1, x1, -1'', ''add x2, x2, x1'', ''bne x1, x0, loop'']) = ([''loop'' \<mapsto> 4], 16, [(0::int, ''addi x5, x0, 1''), (4, ''addi x1, x1, -1''), (8, ''add x2, x2, x1''), (12, ''bne x1, x0, loop'')])
   \<and> length [(0::int, ''addi x5, x0, 1'')] + 2 < length [(0::int, ''addi x5, x0, 1''), (4, ''addi x1, x1, -1''), (8, ''add x2, x2, x1''), (12, ''bne x1, x0, loop'')]
   \<and> [(0::int, ''addi x5, x0, 1''), (4, ''addi x1, x1, -1''), (8, ''add x2, x2, x1''), (12, ''bne x1, x0, loop'')] ! (length [(0::int, ''addi x5, x0, 1'')] + 2) = (12, ''bne x1, x0, loop'')
   \<and> [''loop'' \<mapsto> 4] ''loop'' = Some ((12::int) - 8)
   \<and> parse_imm ''loop'' [''loop'' \<mapsto> 4] 12 = Inr (- 8)
   \<and> encode_instr [''loop'' \<mapsto> 4] (12, ''bne x1, x0, loop'') = Inr ''11111110000000001001110011100011''
   \<and> assemble ([''addi x5, x0, 1''] @ ''loop:'' # [''addi x1, x1, -1'', ''add x2, x2, x1'', ''bne x1, x0, loop'']) = Inr [''00000000000100000000001010010011'', ''11111111111100001000000010010011'', ''00000000000100010000000100110011'', ''11111110000000001001110011100011'']
   \<and> [''00000000000100000000001010010011'', ''11111111111100001000000010010011'', ''00000000000100010000000100110011'', ''11111110000000001001110011100011''] ! (length [(0::int, ''addi x5, x0, 1'')] + 2) = ''11111110000000001001110011100011''"
proof -
  have h1: "declared_label ''loop:'' = Some ''loop''"
    by (simp add: declared_label_def clean_line_def str_eval)
  have n0: "declared_label ''addi x1, x1, -1'' = None"
    by (simp add: declared_label_def clean_line_def str_eval)
  have n1: "declared_label ''add x2, x2, x1'' = None"
    by (simp add: declared_label_def clean_line_def str_eval)
  have n2: "declared_label ''bne x1, x0, loop'' = None"
    by (simp add: declared_label_def clean_line_def str_eval)
  have h2: "\<forall>l \<in> set [''addi x1, x1, -1'', ''add x2, x2, x1'', ''bne x1, x0, loop'']. declared_label l \<noteq> Some ''loop''"
    using n0 n1 n2 by simp
  have h3: "pass1 [''addi x5, x0, 1''] = (Map.empty, 4, [(0::int, ''addi x5, x0, 1'')])"
    by (simp add: pass1_def pass1_step_def str_eval)
  have h4: "pass1 ([''addi x5, x0, 1''] @ ''loop:'' # [''addi x1, x1, -1'', ''add x2, x2, x1'', ''bne x1, x0, loop'']) = ([''loop'' \<mapsto> 4], 16, [(0::int, ''addi x5, x0, 1''), (4, ''addi x1, x1, -1''), (8, ''add x2, x2, x1''), (12, ''bne x1, x0, loop'')])"
    by (simp add: pass1_def pass1_step_def str_eval)
  have k: "length [(0::int, ''addi x5, x0, 1'')] + 2 < length [(0::int, ''addi x5, x0, 1''), (4, ''addi x1, x1, -1''), (8, ''add x2, x2, x1''), (12, ''bne x1, x0, loop'')]"
    by simp
  have i: "[(0::int, ''addi x5, x0, 1''), (4, ''addi x1, x1, -1''), (8, ''add x2, x2, x1''), (12, ''bne x1, x0, loop'')] ! (length [(0::int, ''addi x5, x0, 1'')] + 2) = (12, ''bne x1, x0, loop'')"
    by simp
  have w0: "encode_instr [''loop'' \<mapsto> 4] (0, ''addi x5, x0, 1'') = Inr ''00000000000100000000001010010011''"
    by (simp add: enc_eval str_eval to_bin_eval int_eval)
  have w1: "encode_instr [''loop'' \<mapsto> 4] (4, ''addi x1, x1, -1'') = Inr ''11111111111100001000000010010011''"
    by (simp add: enc_eval str_eval to_bin_eval int_eval)
  have w2: "encode_instr [''loop'' \<mapsto> 4] (8, ''add x2, x2, x1'') = Inr ''00000000000100010000000100110011''"
    by (simp add: enc_eval str_eval to_bin_eval int_eval)
  have lab: "[''loop'' \<mapsto> 4] ''loop'' = Some ((12::int) - 8)"
    by simp
  have e: "parse_imm ''loop'' [''loop'' \<mapsto> 4] 12 = Inr (- 8)"
    using bne_backward_loop [where ws = "[''00000000000100000000001010010011'', ''11111111111100001000000010010011'', ''00000000000100010000000100110011'', ''11111110000000001001110011100011'']", OF h1 h2 h3 h4 k i] by simp
  have w3: "encode_instr [''loop'' \<mapsto> 4] (12, ''bne x1, x0, loop'') = Inr ''11111110000000001001110011100011''"
    using bne_backward_loop [where ws = "[''00000000000100000000001010010011'', ''11111111111100001000000010010011'', ''00000000000100010000000100110011'', ''11111110000000001001110011100011'']", OF h1 h2 h3 h4 k i] by simp
  have asm: "assemble ([''addi x5, x0, 1''] @ ''loop:'' # [''addi x1, x1, -1'', ''add x2, x2, x1'', ''bne x1, x0, loop'']) = Inr [''00000000000100000000001010010011'', ''11111111111100001000000010010011'', ''00000000000100010000000100110011'', ''11111110000000001001110011100011'']"
    by (simp add: assemble_def h4 [simplified] w0 w1 w2 w3)
  have nth: "[''00000000000100000000001010010011'', ''11111111111100001000000010010011'', ''00000000000100010000000100110011'', ''11111110000000001001110011100011''] ! (length [(0::int, ''addi x5, x0, 1'')] + 2) = ''11111110000000001001110011100011''"
    by simp
  show ?thesis
    by (intro conjI; fact)
qed

text \<open>
  Claim C7. Pass 2 encodes against the label table of the completed pass 1. Let \<open>d\<close>
  be the last line declaring \<open>name\<close>, with the lines \<open>pre\<close> before it and
  \<open>post\<close> after it, and let \<open>line\<close> be the \<open>k\<close>-th queued instruction of the
  program. Then the table maps \<open>name\<close> to four times the number of instructions
  queued from \<open>pre\<close>, the instruction is at \<open>pc = 4 k\<close>, and with
  \<open>off = label_pc - pc\<close>: \<open>parse_imm\<close> resolves the name to \<open>off\<close>, and an
  instruction of any of the six formats with an immediate whose operand is the name
  is encoded without error as the word its format packs from \<open>off\<close>. Nothing
  depends on whether \<open>k\<close> is below the number of instructions of \<open>pre\<close> (the
  label is declared below the reference) or not (it is declared above); and when the
  program assembles, the \<open>k\<close>-th word of the output is that encoding.
\<close>

theorem label_offset_any_order:
  assumes "declared_label d = Some name"
    and "\<forall>l \<in> set post. declared_label l \<noteq> Some name"
    and "pass1 pre = (labels0, pc0, instructions0)"
    and "pass1 (pre @ d # post) = (labels, pc_end, instructions)"
    and "k < length instructions" and "instructions ! k = (pc, line)"
    and "remove_commas (strip name) = name"
    and "opcodes (mnemonic line) = Some op"
    and "off = 4 * int (length instructions0) - 4 * int k"
  shows "labels name = Some (4 * int (length instructions0))
       \<and> pc = 4 * int k
       \<and> parse_imm name labels pc = Inr off
       \<and> (assemble (pre @ d # post) = Inr ws \<longrightarrow> encode_instr labels (pc, line) = Inr (ws ! k))
       \<and> (otype op = B \<and> funct3 op = Some f3 \<and> 2 < length (operands line)
            \<and> parse_reg (operands line ! 0) = Inr rs1 \<and> parse_reg (operands line ! 1) = Inr rs2
            \<and> operands line ! 2 = name \<longrightarrow>
          encode_instr labels (pc, line)
            = Inr ([to_bin off 13 ! 0] @ take 6 (drop 2 (to_bin off 13))
                   @ to_bin rs2 5 @ to_bin rs1 5 @ f3
                   @ take 4 (drop 8 (to_bin off 13)) @ [to_bin off 13 ! 1] @ opcode op))
       \<and> (otype op = J \<and> 1 < length (operands line)
            \<and> parse_reg (operands line ! 0) = Inr rd \<and> operands line ! 1 = name \<longrightarrow>
          encode_instr labels (pc, line)
            = Inr ([to_bin off 21 ! 0] @ take 10 (drop 10 (to_bin off 21))
                   @ [to_bin off 21 ! 9] @ take 8 (drop 1 (to_bin off 21))
                   @ to_bin rd 5 @ opcode op))
       \<and> (otype op = I \<and> funct3 op = Some f3 \<and> 2 < length (operands line)
            \<and> parse_reg (operands line ! 0) = Inr rd \<and> parse_reg (operands line ! 1) = Inr rs1
            \<and> operands line ! 2 = name \<longrightarrow>
          encode_instr labels (pc, line)
            = Inr (to_bin off 12 @ to_bin rs1 5 @ f3 @ to_bin rd 5 @ opcode op))
       \<and> (otype op = I_load \<and> funct3 op = Some f3 \<and> 1 < length (operands line)
            \<and> parse_reg (operands line ! 0) = Inr rd
            \<and> operands line ! 1 = name @ ''('' @ r @ '')''
            \<and> CHR ''('' \<notin> set name \<and> CHR ''('' \<notin> set r \<and> parse_reg r = Inr rs1 \<longrightarrow>
          encode_instr labels (pc, line)
            = Inr (to_bin off 12 @ to_bin rs1 5 @ f3 @ to_bin rd 5 @ opcode op))
       \<and> (otype op = S \<and> funct3 op = Some f3 \<and> 1 < length (operands line)
            \<and> parse_reg (operands line ! 0) = Inr rs2
            \<and> operands line ! 1 = name @ ''('' @ r @ '')''
            \<and> CHR ''('' \<notin> set name \<and> CHR ''('' \<notin> set r \<and> parse_reg r = Inr rs1 \<longrightarrow>
          encode_instr labels (pc, line)
            = Inr (take 7 (to_bin off 12) @ to_bin rs2 5 @ to_bin rs1 5 @ f3
                   @ drop 7 (to_bin off 12) @ opcode op))
       \<and> (otype op = U \<and> 1 < length (operands line)
            \<and> parse_reg (operands line ! 0) = Inr rd \<and> operands line ! 1 = name \<longrightarrow>
          encode_instr labels (pc, line) = Inr (to_bin off 20 @ to_bin rd 5 @ opcode op))"
proof -
  have lab: "labels name = Some (4 * int (length instructions0))"
    using assms(1-4) by (rule last_declaration_entry)
  have pc: "pc = 4 * int k"
    using assms(4-6) by (rule queued_pc)
  have off: "4 * int (length instructions0) - pc = off"
    by (simp add: pc assms(9))
  note l = lab assms(7)
  have imm: "parse_imm name labels pc = Inr off"
    using parse_imm_label [where labels = labels and name = name, OF l, of pc] off by simp
  have asm: "assemble (pre @ d # post) = Inr ws \<longrightarrow> encode_instr labels (pc, line) = Inr (ws ! k)"
    using assemble_nth [OF assms(4) _ assms(5), of ws] assms(6) by simp
  have b: "otype op = B \<and> funct3 op = Some f3 \<and> 2 < length (operands line)
            \<and> parse_reg (operands line ! 0) = Inr rs1 \<and> parse_reg (operands line ! 1) = Inr rs2
            \<and> operands line ! 2 = name \<longrightarrow>
          encode_instr labels (pc, line)
            = Inr ([to_bin off 13 ! 0] @ take 6 (drop 2 (to_bin off 13))
                   @ to_bin rs2 5 @ to_bin rs1 5 @ f3
                   @ take 4 (drop 8 (to_bin off 13)) @ [to_bin off 13 ! 1] @ opcode op)"
    using encode_B_label [where labels = labels and name = name, OF l assms(8), of f3 rs1 rs2 pc]
    by (simp add: off)
  have j: "otype op = J \<and> 1 < length (operands line)
            \<and> parse_reg (operands line ! 0) = Inr rd \<and> operands line ! 1 = name \<longrightarrow>
          encode_instr labels (pc, line)
            = Inr ([to_bin off 21 ! 0] @ take 10 (drop 10 (to_bin off 21))
                   @ [to_bin off 21 ! 9] @ take 8 (drop 1 (to_bin off 21))
                   @ to_bin rd 5 @ opcode op)"
    using encode_J_label [where labels = labels and name = name, OF l assms(8), of rd pc]
    by (simp add: off)
  have i: "otype op = I \<and> funct3 op = Some f3 \<and> 2 < length (operands line)
            \<and> parse_reg (operands line ! 0) = Inr rd \<and> parse_reg (operands line ! 1) = Inr rs1
            \<and> operands line ! 2 = name \<longrightarrow>
          encode_instr labels (pc, line)
            = Inr (to_bin off 12 @ to_bin rs1 5 @ f3 @ to_bin rd 5 @ opcode op)"
    using encode_I_label [where labels = labels and name = name, OF l assms(8), of f3 rd rs1 pc]
    by (simp add: off)
  have il: "otype op = I_load \<and> funct3 op = Some f3 \<and> 1 < length (operands line)
            \<and> parse_reg (operands line ! 0) = Inr rd
            \<and> operands line ! 1 = name @ ''('' @ r @ '')''
            \<and> CHR ''('' \<notin> set name \<and> CHR ''('' \<notin> set r \<and> parse_reg r = Inr rs1 \<longrightarrow>
          encode_instr labels (pc, line)
            = Inr (to_bin off 12 @ to_bin rs1 5 @ f3 @ to_bin rd 5 @ opcode op)"
    using encode_I_load_label [where labels = labels and name = name, OF l assms(8),
        of f3 rd r rs1 pc]
    by (simp add: off)
  have st: "otype op = S \<and> funct3 op = Some f3 \<and> 1 < length (operands line)
            \<and> parse_reg (operands line ! 0) = Inr rs2
            \<and> operands line ! 1 = name @ ''('' @ r @ '')''
            \<and> CHR ''('' \<notin> set name \<and> CHR ''('' \<notin> set r \<and> parse_reg r = Inr rs1 \<longrightarrow>
          encode_instr labels (pc, line)
            = Inr (take 7 (to_bin off 12) @ to_bin rs2 5 @ to_bin rs1 5 @ f3
                   @ drop 7 (to_bin off 12) @ opcode op)"
    using encode_S_label [where labels = labels and name = name, OF l assms(8),
        of f3 rs2 r rs1 pc]
    by (simp add: off)
  have u: "otype op = U \<and> 1 < length (operands line)
            \<and> parse_reg (operands line ! 0) = Inr rd \<and> operands line ! 1 = name \<longrightarrow>
          encode_instr labels (pc, line) = Inr (to_bin off 20 @ to_bin rd 5 @ opcode op)"
    using encode_U_label [where labels = labels and name = name, OF l assms(8), of rd pc]
    by (simp add: off)
  from lab pc imm asm b j i il st u show ?thesis by blast
qed

theorem label_offset_any_order_witness:
  "declared_label ''end:'' = Some ''end''
   \<and> declared_label ''add x2, x2, x1'' = None
   \<and> declared_label ''bne x1, x0, end'' = None
   \<and> pass1 [''beq x0, x0, end'', ''jal ra, end'', ''addi x1, x0, end'', ''lw x2, end(x0)'', ''sw x2, end(x0)'', ''lui x3, end''] = (Map.empty, 24, [(0::int, ''beq x0, x0, end''), (4, ''jal ra, end''), (8, ''addi x1, x0, end''), (12, ''lw x2, end(x0)''), (16, ''sw x2, end(x0)''), (20, ''lui x3, end'')])
   \<and> pass1 ([''beq x0, x0, end'', ''jal ra, end'', ''addi x1, x0, end'', ''lw x2, end(x0)'', ''sw x2, end(x0)'', ''lui x3, end''] @ ''end:'' # [''add x2, x2, x1'', ''bne x1, x0, end'']) = ([''end'' \<mapsto> 24], 32, [(0::int, ''beq x0, x0, end''), (4, ''jal ra, end''), (8, ''addi x1, x0, end''), (12, ''lw x2, end(x0)''), (16, ''sw x2, end(x0)''), (20, ''lui x3, end''), (24, ''add x2, x2, x1''), (28, ''bne x1, x0, end'')])
   \<and> remove_commas (strip ''end'') = ''end''
   \<and> opcodes (mnemonic ''beq x0, x0, end'') = Some \<lparr>otype = B, opcode = ''1100011'', funct3 = Some ''000'', funct7 = None\<rparr>
   \<and> operands ''beq x0, x0, end'' = [''x0'', ''x0'', ''end'']
   \<and> parse_imm ''end'' [''end'' \<mapsto> 24] 0 = Inr (24)
   \<and> encode_instr [''end'' \<mapsto> 24] (0, ''beq x0, x0, end'') = Inr ''00000000000000000000110001100011''
   \<and> opcodes (mnemonic ''jal ra, end'') = Some \<lparr>otype = J, opcode = ''1101111'', funct3 = None, funct7 = None\<rparr>
   \<and> operands ''jal ra, end'' = [''ra'', ''end'']
   \<and> parse_imm ''end'' [''end'' \<mapsto> 24] 4 = Inr (20)
   \<and> encode_instr [''end'' \<mapsto> 24] (4, ''jal ra, end'') = Inr ''00000001010000000000000011101111''
   \<and> opcodes (mnemonic ''addi x1, x0, end'') = Some \<lparr>otype = I, opcode = ''0010011'', funct3 = Some ''000'', funct7 = None\<rparr>
   \<and> operands ''addi x1, x0, end'' = [''x1'', ''x0'', ''end'']
   \<and> parse_imm ''end'' [''end'' \<mapsto> 24] 8 = Inr (16)
   \<and> encode_instr [''end'' \<mapsto> 24] (8, ''addi x1, x0, end'') = Inr ''00000001000000000000000010010011''
   \<and> opcodes (mnemonic ''lw x2, end(x0)'') = Some \<lparr>otype = I_load, opcode = ''0000011'', funct3 = Some ''010'', funct7 = None\<rparr>
   \<and> operands ''lw x2, end(x0)'' = [''x2'', ''end(x0)'']
   \<and> parse_imm ''end'' [''end'' \<mapsto> 24] 12 = Inr (12)
   \<and> encode_instr [''end'' \<mapsto> 24] (12, ''lw x2, end(x0)'') = Inr ''00000000110000000010000100000011''
   \<and> opcodes (mnemonic ''sw x2, end(x0)'') = Some \<lparr>otype = S, opcode = ''0100011'', funct3 = Some ''010'', funct7 = None\<rparr>
   \<and> operands ''sw x2, end(x0)'' = [''x2'', ''end(x0)'']
   \<and> parse_imm ''end'' [''end'' \<mapsto> 24] 16 = Inr (8)
   \<and> encode_instr [''end'' \<mapsto> 24] (16, ''sw x2, end(x0)'') = Inr ''00000000001000000010010000100011''
   \<and> opcodes (mnemonic ''lui x3, end'') = Some \<lparr>otype = U, opcode = ''0110111'', funct3 = None, funct7 = None\<rparr>
   \<and> operands ''lui x3, end'' = [''x3'', ''end'']
   \<and> parse_imm ''end'' [''end'' \<mapsto> 24] 20 = Inr (4)
   \<and> encode_instr [''end'' \<mapsto> 24] (20, ''lui x3, end'') = Inr ''00000000000000000100000110110111''
   \<and> opcodes (mnemonic ''bne x1, x0, end'') = Some \<lparr>otype = B, opcode = ''1100011'', funct3 = Some ''001'', funct7 = None\<rparr>
   \<and> operands ''bne x1, x0, end'' = [''x1'', ''x0'', ''end'']
   \<and> parse_imm ''end'' [''end'' \<mapsto> 24] 28 = Inr (- 4)
   \<and> encode_instr [''end'' \<mapsto> 24] (28, ''bne x1, x0, end'') = Inr ''11111110000000001001111011100011''
   \<and> assemble ([''beq x0, x0, end'', ''jal ra, end'', ''addi x1, x0, end'', ''lw x2, end(x0)'', ''sw x2, end(x0)'', ''lui x3, end''] @ ''end:'' # [''add x2, x2, x1'', ''bne x1, x0, end'']) = Inr [''00000000000000000000110001100011'', ''00000001010000000000000011101111'', ''00000001000000000000000010010011'', ''00000000110000000010000100000011'', ''00000000001000000010010000100011'', ''00000000000000000100000110110111'', ''00000000000100010000000100110011'', ''11111110000000001001111011100011'']"
proof -
  have h1: "declared_label ''end:'' = Some ''end''"
    by (simp add: declared_label_def clean_line_def str_eval)
  have n0: "declared_label ''add x2, x2, x1'' = None"
    by (simp add: declared_label_def clean_line_def str_eval)
  have n1: "declared_label ''bne x1, x0, end'' = None"
    by (simp add: declared_label_def clean_line_def str_eval)
  have h2: "\<forall>l \<in> set [''add x2, x2, x1'', ''bne x1, x0, end'']. declared_label l \<noteq> Some ''end''"
    using n0 n1 by simp
  have h3: "pass1 [''beq x0, x0, end'', ''jal ra, end'', ''addi x1, x0, end'', ''lw x2, end(x0)'', ''sw x2, end(x0)'', ''lui x3, end''] = (Map.empty, 24, [(0::int, ''beq x0, x0, end''), (4, ''jal ra, end''), (8, ''addi x1, x0, end''), (12, ''lw x2, end(x0)''), (16, ''sw x2, end(x0)''), (20, ''lui x3, end'')])"
    by (simp add: pass1_def pass1_step_def str_eval)
  have h4: "pass1 ([''beq x0, x0, end'', ''jal ra, end'', ''addi x1, x0, end'', ''lw x2, end(x0)'', ''sw x2, end(x0)'', ''lui x3, end''] @ ''end:'' # [''add x2, x2, x1'', ''bne x1, x0, end'']) = ([''end'' \<mapsto> 24], 32, [(0::int, ''beq x0, x0, end''), (4, ''jal ra, end''), (8, ''addi x1, x0, end''), (12, ''lw x2, end(x0)''), (16, ''sw x2, end(x0)''), (20, ''lui x3, end''), (24, ''add x2, x2, x1''), (28, ''bne x1, x0, end'')])"
    by (simp add: pass1_def pass1_step_def str_eval)
  have h7: "remove_commas (strip ''end'') = ''end''"
    by (simp add: str_eval)
  have r_x0: "parse_reg ''x0'' = Inr 0"
    by (simp add: parse_reg_def regs_table_def str_eval)
  have r_x1: "parse_reg ''x1'' = Inr 1"
    by (simp add: parse_reg_def regs_table_def str_eval)
  have r_x2: "parse_reg ''x2'' = Inr 2"
    by (simp add: parse_reg_def regs_table_def str_eval)
  have r_x3: "parse_reg ''x3'' = Inr 3"
    by (simp add: parse_reg_def regs_table_def str_eval)
  have r_ra: "parse_reg ''ra'' = Inr 1"
    by (simp add: parse_reg_def regs_table_def str_eval)
  have o0: "opcodes (mnemonic ''beq x0, x0, end'') = Some \<lparr>otype = B, opcode = ''1100011'', funct3 = Some ''000'', funct7 = None\<rparr>"
    by (simp add: opcodes_def mnemonic_def str_eval)
  have a0: "operands ''beq x0, x0, end'' = [''x0'', ''x0'', ''end'']"
    by (simp add: operands_def str_eval)
  have k0: "0 < length [(0::int, ''beq x0, x0, end''), (4, ''jal ra, end''), (8, ''addi x1, x0, end''), (12, ''lw x2, end(x0)''), (16, ''sw x2, end(x0)''), (20, ''lui x3, end''), (24, ''add x2, x2, x1''), (28, ''bne x1, x0, end'')]"
    by simp
  have i0: "[(0::int, ''beq x0, x0, end''), (4, ''jal ra, end''), (8, ''addi x1, x0, end''), (12, ''lw x2, end(x0)''), (16, ''sw x2, end(x0)''), (20, ''lui x3, end''), (24, ''add x2, x2, x1''), (28, ''bne x1, x0, end'')] ! 0 = (0, ''beq x0, x0, end'')"
    by simp
  have f0: "(24::int) = 4 * int (length [(0::int, ''beq x0, x0, end''), (4, ''jal ra, end''), (8, ''addi x1, x0, end''), (12, ''lw x2, end(x0)''), (16, ''sw x2, end(x0)''), (20, ''lui x3, end'')]) - 4 * int 0"
    by simp
  have e0: "parse_imm ''end'' [''end'' \<mapsto> 24] 0 = Inr (24)"
    using label_offset_any_order [where rd = 0 and ?rs1.0 = 0 and ?rs2.0 = 0 and r = "[]" and ?f3.0 = "''000''" and ws = "[]",
        OF h1 h2 h3 h4 k0 i0 h7 o0 f0]
    by simp
  have w0: "encode_instr [''end'' \<mapsto> 24] (0, ''beq x0, x0, end'') = Inr ''00000000000000000000110001100011''"
    using label_offset_any_order [where rd = 0 and ?rs1.0 = 0 and ?rs2.0 = 0 and r = "[]" and ?f3.0 = "''000''" and ws = "[]",
        OF h1 h2 h3 h4 k0 i0 h7 o0 f0] a0 r_x0
    by (simp add: to_bin_eval)
  have o1: "opcodes (mnemonic ''jal ra, end'') = Some \<lparr>otype = J, opcode = ''1101111'', funct3 = None, funct7 = None\<rparr>"
    by (simp add: opcodes_def mnemonic_def str_eval)
  have a1: "operands ''jal ra, end'' = [''ra'', ''end'']"
    by (simp add: operands_def str_eval)
  have k1: "1 < length [(0::int, ''beq x0, x0, end''), (4, ''jal ra, end''), (8, ''addi x1, x0, end''), (12, ''lw x2, end(x0)''), (16, ''sw x2, end(x0)''), (20, ''lui x3, end''), (24, ''add x2, x2, x1''), (28, ''bne x1, x0, end'')]"
    by simp
  have i1: "[(0::int, ''beq x0, x0, end''), (4, ''jal ra, end''), (8, ''addi x1, x0, end''), (12, ''lw x2, end(x0)''), (16, ''sw x2, end(x0)''), (20, ''lui x3, end''), (24, ''add x2, x2, x1''), (28, ''bne x1, x0, end'')] ! 1 = (4, ''jal ra, end'')"
    by simp
  have f1: "(20::int) = 4 * int (length [(0::int, ''beq x0, x0, end''), (4, ''jal ra, end''), (8, ''addi x1, x0, end''), (12, ''lw x2, end(x0)''), (16, ''sw x2, end(x0)''), (20, ''lui x3, end'')]) - 4 * int 1"
    by simp
  have e1: "parse_imm ''end'' [''end'' \<mapsto> 24] 4 = Inr (20)"
    using label_offset_any_order [where rd = 1 and ?rs1.0 = 0 and ?rs2.0 = 0 and r = "[]" and ?f3.0 = "[]" and ws = "[]",
        OF h1 h2 h3 h4 k1 i1 h7 o1 f1]
    by simp
  have w1: "encode_instr [''end'' \<mapsto> 24] (4, ''jal ra, end'') = Inr ''00000001010000000000000011101111''"
    using label_offset_any_order [where rd = 1 and ?rs1.0 = 0 and ?rs2.0 = 0 and r = "[]" and ?f3.0 = "[]" and ws = "[]",
        OF h1 h2 h3 h4 k1 i1 h7 o1 f1] a1 r_ra
    by (simp add: to_bin_eval)
  have o2: "opcodes (mnemonic ''addi x1, x0, end'') = Some \<lparr>otype = I, opcode = ''0010011'', funct3 = Some ''000'', funct7 = None\<rparr>"
    by (simp add: opcodes_def mnemonic_def str_eval)
  have a2: "operands ''addi x1, x0, end'' = [''x1'', ''x0'', ''end'']"
    by (simp add: operands_def str_eval)
  have k2: "2 < length [(0::int, ''beq x0, x0, end''), (4, ''jal ra, end''), (8, ''addi x1, x0, end''), (12, ''lw x2, end(x0)''), (16, ''sw x2, end(x0)''), (20, ''lui x3, end''), (24, ''add x2, x2, x1''), (28, ''bne x1, x0, end'')]"
    by simp
  have i2: "[(0::int, ''beq x0, x0, end''), (4, ''jal ra, end''), (8, ''addi x1, x0, end''), (12, ''lw x2, end(x0)''), (16, ''sw x2, end(x0)''), (20, ''lui x3, end''), (24, ''add x2, x2, x1''), (28, ''bne x1, x0, end'')] ! 2 = (8, ''addi x1, x0, end'')"
    by simp
  have f2: "(16::int) = 4 * int (length [(0::int, ''beq x0, x0, end''), (4, ''jal ra, end''), (8, ''addi x1, x0, end''), (12, ''lw x2, end(x0)''), (16, ''sw x2, end(x0)''), (20, ''lui x3, end'')]) - 4 * int 2"
    by simp
  have e2: "parse_imm ''end'' [''end'' \<mapsto> 24] 8 = Inr (16)"
    using label_offset_any_order [where rd = 1 and ?rs1.0 = 0 and ?rs2.0 = 0 and r = "[]" and ?f3.0 = "''000''" and ws = "[]",
        OF h1 h2 h3 h4 k2 i2 h7 o2 f2]
    by simp
  have w2: "encode_instr [''end'' \<mapsto> 24] (8, ''addi x1, x0, end'') = Inr ''00000001000000000000000010010011''"
    using label_offset_any_order [where rd = 1 and ?rs1.0 = 0 and ?rs2.0 = 0 and r = "[]" and ?f3.0 = "''000''" and ws = "[]",
        OF h1 h2 h3 h4 k2 i2 h7 o2 f2] a2 r_x0 r_x1
    by (simp add: to_bin_eval)
  have o3: "opcodes (mnemonic ''lw x2, end(x0)'') = Some \<lparr>otype = I_load, opcode = ''0000011'', funct3 = Some ''010'', funct7 = None\<rparr>"
    by (simp add: opcodes_def mnemonic_def str_eval)
  have a3: "operands ''lw x2, end(x0)'' = [''x2'', ''end(x0)'']"
    by (simp add: operands_def str_eval)
  have k3: "3 < length [(0::int, ''beq x0, x0, end''), (4, ''jal ra, end''), (8, ''addi x1, x0, end''), (12, ''lw x2, end(x0)''), (16, ''sw x2, end(x0)''), (20, ''lui x3, end''), (24, ''add x2, x2, x1''), (28, ''bne x1, x0, end'')]"
    by simp
  have i3: "[(0::int, ''beq x0, x0, end''), (4, ''jal ra, end''), (8, ''addi x1, x0, end''), (12, ''lw x2, end(x0)''), (16, ''sw x2, end(x0)''), (20, ''lui x3, end''), (24, ''add x2, x2, x1''), (28, ''bne x1, x0, end'')] ! 3 = (12, ''lw x2, end(x0)'')"
    by simp
  have f3: "(12::int) = 4 * int (length [(0::int, ''beq x0, x0, end''), (4, ''jal ra, end''), (8, ''addi x1, x0, end''), (12, ''lw x2, end(x0)''), (16, ''sw x2, end(x0)''), (20, ''lui x3, end'')]) - 4 * int 3"
    by simp
  have e3: "parse_imm ''end'' [''end'' \<mapsto> 24] 12 = Inr (12)"
    using label_offset_any_order [where rd = 2 and ?rs1.0 = 0 and ?rs2.0 = 0 and r = "''x0''" and ?f3.0 = "''010''" and ws = "[]",
        OF h1 h2 h3 h4 k3 i3 h7 o3 f3]
    by simp
  have w3: "encode_instr [''end'' \<mapsto> 24] (12, ''lw x2, end(x0)'') = Inr ''00000000110000000010000100000011''"
    using label_offset_any_order [where rd = 2 and ?rs1.0 = 0 and ?rs2.0 = 0 and r = "''x0''" and ?f3.0 = "''010''" and ws = "[]",
        OF h1 h2 h3 h4 k3 i3 h7 o3 f3] a3 r_x0 r_x2
    by (simp add: to_bin_eval)
  have o4: "opcodes (mnemonic ''sw x2, end(x0)'') = Some \<lparr>otype = S, opcode = ''0100011'', funct3 = Some ''010'', funct7 = None\<rparr>"
    by (simp add: opcodes_def mnemonic_def str_eval)
  have a4: "operands ''sw x2, end(x0)'' = [''x2'', ''end(x0)'']"
    by (simp add: operands_def str_eval)
  have k4: "4 < length [(0::int, ''beq x0, x0, end''), (4, ''jal ra, end''), (8, ''addi x1, x0, end''), (12, ''lw x2, end(x0)''), (16, ''sw x2, end(x0)''), (20, ''lui x3, end''), (24, ''add x2, x2, x1''), (28, ''bne x1, x0, end'')]"
    by simp
  have i4: "[(0::int, ''beq x0, x0, end''), (4, ''jal ra, end''), (8, ''addi x1, x0, end''), (12, ''lw x2, end(x0)''), (16, ''sw x2, end(x0)''), (20, ''lui x3, end''), (24, ''add x2, x2, x1''), (28, ''bne x1, x0, end'')] ! 4 = (16, ''sw x2, end(x0)'')"
    by simp
  have f4: "(8::int) = 4 * int (length [(0::int, ''beq x0, x0, end''), (4, ''jal ra, end''), (8, ''addi x1, x0, end''), (12, ''lw x2, end(x0)''), (16, ''sw x2, end(x0)''), (20, ''lui x3, end'')]) - 4 * int 4"
    by simp
  have e4: "parse_imm ''end'' [''end'' \<mapsto> 24] 16 = Inr (8)"
    using label_offset_any_order [where rd = 0 and ?rs1.0 = 0 and ?rs2.0 = 2 and r = "''x0''" and ?f3.0 = "''010''" and ws = "[]",
        OF h1 h2 h3 h4 k4 i4 h7 o4 f4]
    by simp
  have w4: "encode_instr [''end'' \<mapsto> 24] (16, ''sw x2, end(x0)'') = Inr ''00000000001000000010010000100011''"
    using label_offset_any_order [where rd = 0 and ?rs1.0 = 0 and ?rs2.0 = 2 and r = "''x0''" and ?f3.0 = "''010''" and ws = "[]",
        OF h1 h2 h3 h4 k4 i4 h7 o4 f4] a4 r_x0 r_x2
    by (simp add: to_bin_eval)
  have o5: "opcodes (mnemonic ''lui x3, end'') = Some \<lparr>otype = U, opcode = ''0110111'', funct3 = None, funct7 = None\<rparr>"
    by (simp add: opcodes_def mnemonic_def str_eval)
  have a5: "operands ''lui x3, end'' = [''x3'', ''end'']"
    by (simp add: operands_def str_eval)
  have k5: "5 < length [(0::int, ''beq x0, x0, end''), (4, ''jal ra, end''), (8, ''addi x1, x0, end''), (12, ''lw x2, end(x0)''), (16, ''sw x2, end(x0)''), (20, ''lui x3, end''), (24, ''add x2, x2, x1''), (28, ''bne x1, x0, end'')]"
    by simp
  have i5: "[(0::int, ''beq x0, x0, end''), (4, ''jal ra, end''), (8, ''addi x1, x0, end''), (12, ''lw x2, end(x0)''), (16, ''sw x2, end(x0)''), (20, ''lui x3, end''), (24, ''add x2, x2, x1''), (28, ''bne x1, x0, end'')] ! 5 = (20, ''lui x3, end'')"
    by simp
  have f5: "(4::int) = 4 * int (length [(0::int, ''beq x0, x0, end''), (4, ''jal ra, end''), (8, ''addi x1, x0, end''), (12, ''lw x2, end(x0)''), (16, ''sw x2, end(x0)''), (20, ''lui x3, end'')]) - 4 * int 5"
    by simp
  have e5: "parse_imm ''end'' [''end'' \<mapsto> 24] 20 = Inr (4)"
    using label_offset_any_order [where rd = 3 and ?rs1.0 = 0 and ?rs2.0 = 0 and r = "[]" and ?f3.0 = "[]" and ws = "[]",
        OF h1 h2 h3 h4 k5 i5 h7 o5 f5]
    by simp
  have w5: "encode_instr [''end'' \<mapsto> 24] (20, ''lui x3, end'') = Inr ''00000000000000000100000110110111''"
    using label_offset_any_order [where rd = 3 and ?rs1.0 = 0 and ?rs2.0 = 0 and r = "[]" and ?f3.0 = "[]" and ws = "[]",
        OF h1 h2 h3 h4 k5 i5 h7 o5 f5] a5 r_x3
    by (simp add: to_bin_eval)
  have o7: "opcodes (mnemonic ''bne x1, x0, end'') = Some \<lparr>otype = B, opcode = ''1100011'', funct3 = Some ''001'', funct7 = None\<rparr>"
    by (simp add: opcodes_def mnemonic_def str_eval)
  have a7: "operands ''bne x1, x0, end'' = [''x1'', ''x0'', ''end'']"
    by (simp add: operands_def str_eval)
  have k7: "7 < length [(0::int, ''beq x0, x0, end''), (4, ''jal ra, end''), (8, ''addi x1, x0, end''), (12, ''lw x2, end(x0)''), (16, ''sw x2, end(x0)''), (20, ''lui x3, end''), (24, ''add x2, x2, x1''), (28, ''bne x1, x0, end'')]"
    by simp
  have i7: "[(0::int, ''beq x0, x0, end''), (4, ''jal ra, end''), (8, ''addi x1, x0, end''), (12, ''lw x2, end(x0)''), (16, ''sw x2, end(x0)''), (20, ''lui x3, end''), (24, ''add x2, x2, x1''), (28, ''bne x1, x0, end'')] ! 7 = (28, ''bne x1, x0, end'')"
    by simp
  have f7: "(- 4::int) = 4 * int (length [(0::int, ''beq x0, x0, end''), (4, ''jal ra, end''), (8, ''addi x1, x0, end''), (12, ''lw x2, end(x0)''), (16, ''sw x2, end(x0)''), (20, ''lui x3, end'')]) - 4 * int 7"
    by simp
  have e7: "parse_imm ''end'' [''end'' \<mapsto> 24] 28 = Inr (- 4)"
    using label_offset_any_order [where rd = 0 and ?rs1.0 = 1 and ?rs2.0 = 0 and r = "[]" and ?f3.0 = "''001''" and ws = "[]",
        OF h1 h2 h3 h4 k7 i7 h7 o7 f7]
    by simp
  have w7: "encode_instr [''end'' \<mapsto> 24] (28, ''bne x1, x0, end'') = Inr ''11111110000000001001111011100011''"
    using label_offset_any_order [where rd = 0 and ?rs1.0 = 1 and ?rs2.0 = 0 and r = "[]" and ?f3.0 = "''001''" and ws = "[]",
        OF h1 h2 h3 h4 k7 i7 h7 o7 f7] a7 r_x0 r_x1
    by (simp add: to_bin_eval)
  have w6: "encode_instr [''end'' \<mapsto> 24] (24, ''add x2, x2, x1'') = Inr ''00000000000100010000000100110011''"
    by (simp add: enc_eval str_eval to_bin_eval)
  have asm: "assemble ([''beq x0, x0, end'', ''jal ra, end'', ''addi x1, x0, end'', ''lw x2, end(x0)'', ''sw x2, end(x0)'', ''lui x3, end''] @ ''end:'' # [''add x2, x2, x1'', ''bne x1, x0, end'']) = Inr [''00000000000000000000110001100011'', ''00000001010000000000000011101111'', ''00000001000000000000000010010011'', ''00000000110000000010000100000011'', ''00000000001000000010010000100011'', ''00000000000000000100000110110111'', ''00000000000100010000000100110011'', ''11111110000000001001111011100011'']"
    by (simp add: assemble_def h4 [simplified] w0 w1 w2 w3 w4 w5 w6 w7)
  show ?thesis
    by (intro conjI; fact)
qed

end
